theory Spec2Isabelle
  imports Complex_Main "HOL-Library.AList" "HOL-Library.Sublist"
begin

section \<open>Python text\<close>

text \<open>
  A Python \<^verbatim>\<open>str\<close> is a sequence of Unicode code points, so a string is a list of
  naturals. ASCII literals of the source are written through \<open>lit\<close>.
\<close>

type_synonym pystr = "nat list"

definition lit :: "string \<Rightarrow> pystr" where
  "lit s = map of_char s"

text \<open>
  What the script takes from its runtime rather than from its own text. On ASCII the
  character classes and the lower-casing are written out below; beyond ASCII they come
  from the Unicode database of the interpreter, which is a parameter here:
  \<^item> \<open>ucd_space\<close>: \<^verbatim>\<open>str.isspace\<close>, which is also the class \<^verbatim>\<open>\s\<close> of \<^verbatim>\<open>re\<close>;
  \<^item> \<open>ucd_alnum\<close>: \<^verbatim>\<open>str.isalnum\<close>, the class \<^verbatim>\<open>\w\<close> without the underscore;
  \<^item> \<open>ucd_lower\<close>: the lower-case mapping of one code point, given the text before and
    after it (\<^verbatim>\<open>str.lower\<close> looks at the context of a capital sigma), as the list of
    code points it becomes.
  The conversions of pandas and numpy between text, numbers and dates are parameters
  as well:
  \<^item> \<open>num_of_str\<close>: what \<^verbatim>\<open>pd.to_numeric(errors="coerce")\<close> makes of one string
    (\<open>None\<close> is NaN: the string does not parse, or spells NaN);
  \<^item> \<open>str_of_num\<close>, \<open>str_of_time\<close>: \<^verbatim>\<open>astype(str)\<close> on a number and on a timestamp;
  \<^item> \<open>datetime_of\<close>: \<^verbatim>\<open>pd.to_datetime(errors="coerce")\<close> on a column of text or
    numbers, as the value at each row index (\<open>None\<close> is NaT); it is given the whole
    column, since pandas guesses the date format from the column;
  \<^item> \<open>int_of_oob\<close>: the integer that numpy's cast of a finite float beyond the int64
    range leaves behind (it depends on the platform).
\<close>

text \<open>
  A float64 other than NaN: a finite one is the rational it denotes, the two infinities
  are values of their own. An int64 is a finite value too.
\<close>

datatype num = NegInf | Fin rat | PosInf

text \<open>
  A column has one of four dtypes. \<open>None\<close> is the missing value of the dtype (NaN,
  NaT). A timestamp is its count of nanoseconds since the epoch, which is also what
  pandas stores. A cell \<open>Some s\<close> of an object column of the raw table stands for a
  value \<open>v\<close> with \<^verbatim>\<open>str(v) = s\<close>: the first thing the script does with an object
  column is \<^verbatim>\<open>astype(str)\<close>. Boolean columns are not modelled.
\<close>

datatype column =
    Object "pystr option list"
  | Numeric "num option list"
  | Datetime "int option list"
  | Category "pystr option list"

record env =
  ucd_space :: "nat \<Rightarrow> bool"
  ucd_alnum :: "nat \<Rightarrow> bool"
  ucd_lower :: "pystr \<Rightarrow> nat \<Rightarrow> pystr \<Rightarrow> pystr"
  num_of_str :: "pystr \<Rightarrow> num option"
  str_of_num :: "num \<Rightarrow> pystr"
  str_of_time :: "int \<Rightarrow> pystr"
  datetime_of :: "column \<Rightarrow> nat \<Rightarrow> int option"
  int_of_oob :: "rat \<Rightarrow> int"

definition ascii_space :: "nat \<Rightarrow> bool" where
  "ascii_space c = ((9 \<le> c \<and> c \<le> 13) \<or> (28 \<le> c \<and> c \<le> 32))"

definition ascii_alnum :: "nat \<Rightarrow> bool" where
  "ascii_alnum c = ((48 \<le> c \<and> c \<le> 57) \<or> (65 \<le> c \<and> c \<le> 90) \<or> (97 \<le> c \<and> c \<le> 122))"

definition ascii_lower :: "nat \<Rightarrow> nat" where
  "ascii_lower c = (if 65 \<le> c \<and> c \<le> 90 then c + 32 else c)"

definition isspace :: "env \<Rightarrow> nat \<Rightarrow> bool" where
  "isspace E c = (if c < 128 then ascii_space c else ucd_space E c)"

definition isword :: "env \<Rightarrow> nat \<Rightarrow> bool" where
  "isword E c = (if c < 128 then ascii_alnum c \<or> c = 95 else ucd_alnum E c)"

fun lower_from :: "env \<Rightarrow> pystr \<Rightarrow> pystr \<Rightarrow> pystr" where
  "lower_from E pre [] = []"
| "lower_from E pre (c # post) =
     (if c < 128 then [ascii_lower c] else ucd_lower E pre c post)
     @ lower_from E (pre @ [c]) post"

definition lower :: "env \<Rightarrow> pystr \<Rightarrow> pystr" where
  "lower E s = lower_from E [] s"

definition strip :: "env \<Rightarrow> pystr \<Rightarrow> pystr" where
  "strip E s = rev (dropWhile (isspace E) (rev (dropWhile (isspace E) s)))"

text \<open>\<^verbatim>\<open>re.sub(r"[^\w\s]", "", s)\<close>: every character that is neither word nor space goes.\<close>

definition re_sub_nonword :: "env \<Rightarrow> pystr \<Rightarrow> pystr" where
  "re_sub_nonword E s = filter (\<lambda>c. isword E c \<or> isspace E c) s"

text \<open>
  \<^verbatim>\<open>re.sub(r"\s+", rep, s)\<close>: each maximal run of spaces becomes one \<open>rep\<close>. The flag
  says whether the previous character was a space, that is, whether the run has been
  replaced already.
\<close>

fun re_sub_spaces :: "env \<Rightarrow> pystr \<Rightarrow> bool \<Rightarrow> pystr \<Rightarrow> pystr" where
  "re_sub_spaces E rep run [] = []"
| "re_sub_spaces E rep run (c # cs) =
     (if isspace E c then (if run then [] else rep) @ re_sub_spaces E rep True cs
      else c # re_sub_spaces E rep False cs)"

subsection \<open>Helpers\<close>

definition to_snake :: "env \<Rightarrow> pystr \<Rightarrow> pystr" where
  "to_snake E s =
     (let s1 = strip E s;
          s2 = re_sub_nonword E s1;
          s3 = re_sub_spaces E (lit ''_'') False s2
      in lower E s3)"

section \<open>Tables\<close>

text \<open>
  A DataFrame is the list of its columns, in order, each under its name. All columns of
  a DataFrame have the same length.
\<close>

type_synonym frame = "(pystr \<times> column) list"

datatype error = AttributeError | TypeError | IntCastingNaNError

datatype val = Text pystr | Number num | Time int | Label pystr

definition col_cells :: "column \<Rightarrow> val option list" where
  "col_cells col =
     (case col of
        Object xs \<Rightarrow> map (map_option Text) xs
      | Numeric xs \<Rightarrow> map (map_option Number) xs
      | Datetime xs \<Rightarrow> map (map_option Time) xs
      | Category xs \<Rightarrow> map (map_option Label) xs)"

definition col_len :: "column \<Rightarrow> nat" where
  "col_len col = length (col_cells col)"

definition is_object :: "column \<Rightarrow> bool" where
  "is_object col = (case col of Object xs \<Rightarrow> True | _ \<Rightarrow> False)"

definition nrows :: "frame \<Rightarrow> nat" where
  "nrows df = (case df of [] \<Rightarrow> 0 | (c, col) # rest \<Rightarrow> col_len col)"

definition rectangular :: "frame \<Rightarrow> bool" where
  "rectangular df = (\<forall>(c, col) \<in> set df. col_len col = nrows df)"

definition has :: "frame \<Rightarrow> pystr \<Rightarrow> bool" where
  "has df colname = (colname \<in> set (map fst df))"

text \<open>
  \<^verbatim>\<open>df[c] = col\<close>: an existing column is replaced where it stands, a new one goes to
  the end. \<^verbatim>\<open>df[c]\<close> is \<open>map_of df c\<close>, which is \<open>Some\<close> exactly when \<open>has df c\<close>.
\<close>

definition setcol :: "frame \<Rightarrow> pystr \<Rightarrow> column \<Rightarrow> frame" where
  "setcol df c col = AList.update c col df"

text \<open>\<^verbatim>\<open>if has(df,c): df[c] = f(df[c])\<close>\<close>

definition modify :: "pystr \<Rightarrow> (column \<Rightarrow> column) \<Rightarrow> frame \<Rightarrow> frame" where
  "modify c f df = (case map_of df c of None \<Rightarrow> df | Some col \<Rightarrow> setcol df c (f col))"

text \<open>\<^verbatim>\<open>any(x in c for x in words)\<close>, on strings: some word is a substring of \<open>c\<close>.\<close>

definition any_in :: "pystr list \<Rightarrow> pystr \<Rightarrow> bool" where
  "any_in words c = list_ex (\<lambda>x. sublist x c) words"

text \<open>\<^verbatim>\<open>astype(str)\<close>, element by element.\<close>

definition astype_str :: "env \<Rightarrow> column \<Rightarrow> pystr list" where
  "astype_str E col =
     (case col of
        Object xs \<Rightarrow> map (\<lambda>x. case x of None \<Rightarrow> lit ''nan'' | Some s \<Rightarrow> s) xs
      | Numeric xs \<Rightarrow> map (\<lambda>x. case x of None \<Rightarrow> lit ''nan'' | Some v \<Rightarrow> str_of_num E v) xs
      | Datetime xs \<Rightarrow> map (\<lambda>x. case x of None \<Rightarrow> lit ''NaT'' | Some t \<Rightarrow> str_of_time E t) xs
      | Category xs \<Rightarrow> map (\<lambda>x. case x of None \<Rightarrow> lit ''nan'' | Some l \<Rightarrow> l) xs)"

text \<open>
  \<^verbatim>\<open>pd.to_numeric(col, errors="coerce")\<close>: a numeric column is returned as it is, a
  datetime column is read as its int64 nanoseconds (NaT is stored as the least int64),
  anything else is parsed string by string.
\<close>

definition to_numeric :: "env \<Rightarrow> column \<Rightarrow> num option list" where
  "to_numeric E col =
     (case col of
        Numeric xs \<Rightarrow> xs
      | Datetime xs \<Rightarrow>
          map (\<lambda>x. case x of None \<Rightarrow> Some (Fin (- (2 ^ 63))) | Some t \<Rightarrow> Some (Fin (of_int t))) xs
      | Object xs \<Rightarrow> map (\<lambda>x. case x of None \<Rightarrow> None | Some s \<Rightarrow> num_of_str E s) xs
      | Category xs \<Rightarrow> map (\<lambda>x. case x of None \<Rightarrow> None | Some s \<Rightarrow> num_of_str E s) xs)"

text \<open>\<^verbatim>\<open>pd.to_datetime(col, errors="coerce")\<close>\<close>

definition to_datetime :: "env \<Rightarrow> column \<Rightarrow> column" where
  "to_datetime E col =
     (case col of
        Datetime xs \<Rightarrow> Datetime xs
      | _ \<Rightarrow> Datetime (map (datetime_of E col) [0..<col_len col]))"

section \<open>The pipeline\<close>

subsection \<open>Load\<close>

text \<open>
  \<^verbatim>\<open>df.columns = [to_snake(c) for c in df.columns]\<close>. The raw table is what
  \<^verbatim>\<open>pd.read_excel\<close> returned; reading the file is outside the model.
\<close>

definition load :: "env \<Rightarrow> frame \<Rightarrow> frame" where
  "load E df_raw = map (\<lambda>(c, col). (to_snake E c, col)) df_raw"

subsection \<open>Light cleaning\<close>

definition replace_nan :: "pystr \<Rightarrow> pystr option" where
  "replace_nan s = (if s = lit ''nan'' \<or> s = lit ''None'' \<or> s = [] then None else Some s)"

text \<open>
  \<^verbatim>\<open>Series.replace\<close> ends, on an object column, by inferring a better dtype for the
  result (pandas 1 and 2, where text columns have the object dtype; this is the pandas
  the script is written for). Text stays an object column; a column that has rows and
  no value left in any of them becomes a float64 column of NaN.
\<close>

definition infer_objects :: "pystr option list \<Rightarrow> column" where
  "infer_objects xs =
     (if xs \<noteq> [] \<and> list_all (\<lambda>x. x = None) xs then Numeric (map (\<lambda>x. None) xs)
      else Object xs)"

definition strip_strings :: "env \<Rightarrow> column \<Rightarrow> column" where
  "strip_strings E col =
     (if is_object col
      then infer_objects (map (\<lambda>s. replace_nan (strip E s)) (astype_str E col))
      else col)"

text \<open>
  The loop reads \<^verbatim>\<open>df[c].dtype\<close> for every column name. Two headers with the same
  normal form make \<^verbatim>\<open>df[c]\<close> a DataFrame, which has no \<^verbatim>\<open>dtype\<close>: the script stops
  with an AttributeError.
\<close>

definition light_cleaning :: "env \<Rightarrow> frame \<Rightarrow> error + frame" where
  "light_cleaning E df =
     (if distinct (map fst df) then Inr (map (\<lambda>(c, col). (c, strip_strings E col)) df)
      else Inl AttributeError)"

definition numeric_names :: "pystr list" where
  "numeric_names = map lit [''age'', ''pincode'', ''zipcode'', ''daywisesno'', ''tahsilid'',
     ''blockid'', ''stateid'', ''cityid'', ''districtid'']"

definition coerce_numerics :: "env \<Rightarrow> frame \<Rightarrow> frame" where
  "coerce_numerics E df = fold (\<lambda>c. modify c (\<lambda>col. Numeric (to_numeric E col))) numeric_names df"

definition date_words :: "pystr list" where
  "date_words = map lit [''date'', ''dob'', ''created'', ''updated'', ''registration'']"

definition parse_dates :: "env \<Rightarrow> frame \<Rightarrow> frame" where
  "parse_dates E df =
     map (\<lambda>(c, col). (c, if any_in date_words c then to_datetime E col else col)) df"

subsection \<open>Gender normalization\<close>

definition gender_col :: "frame \<Rightarrow> pystr option" where
  "gender_col df = find (has df) [lit ''sex'', lit ''gender'']"

definition gmap :: "(pystr \<times> pystr) list" where
  "gmap = [(lit ''m'', lit ''M''), (lit ''male'', lit ''M''), (lit ''f'', lit ''F''),
           (lit ''female'', lit ''F''), (lit ''o'', lit ''O''), (lit ''other'', lit ''O''),
           (lit ''others'', lit ''O'')]"

definition gender_value :: "env \<Rightarrow> pystr \<Rightarrow> pystr" where
  "gender_value E s =
     (let v = lower E (strip E s);
          r = (case map_of gmap v of Some g \<Rightarrow> g | None \<Rightarrow> v)
      in if r \<in> set [lit ''M'', lit ''F'', lit ''O''] then r else lit ''Unknown'')"

definition gender_normalization :: "env \<Rightarrow> frame \<Rightarrow> frame" where
  "gender_normalization E df =
     (case gender_col df of
        None \<Rightarrow> df
      | Some g \<Rightarrow> modify g (\<lambda>col. Object (map (\<lambda>s. Some (gender_value E s)) (astype_str E col))) df)"

subsection \<open>Age cleanup and band\<close>

fun num_less :: "num \<Rightarrow> num \<Rightarrow> bool" where
  "num_less NegInf y = (y \<noteq> NegInf)"
| "num_less (Fin a) (Fin b) = (a < b)"
| "num_less (Fin a) y = (y = PosInf)"
| "num_less PosInf y = False"

definition out_of_range :: "num option \<Rightarrow> num option" where
  "out_of_range a =
     (case a of
        None \<Rightarrow> None
      | Some x \<Rightarrow> if num_less x (Fin 0) \<or> num_less (Fin 120) x then None else Some x)"

text \<open>
  \<^verbatim>\<open>pd.cut(x, bins, labels, right=True)\<close> with the default \<^verbatim>\<open>include_lowest=False\<close>:
  the label of the first interval \<open>(lo, hi]\<close> that holds the value, NaN when there is
  none.
\<close>

fun cut :: "rat list \<Rightarrow> pystr list \<Rightarrow> num \<Rightarrow> pystr option" where
  "cut (lo # hi # bins) (l # labels) x =
     (if num_less (Fin lo) x \<and> \<not> num_less (Fin hi) x then Some l else cut (hi # bins) labels x)"
| "cut bins labels x = None"

definition age_bins :: "rat list" where
  "age_bins = [0, 12, 18, 30, 45, 60, 75, 120]"

definition age_labels :: "pystr list" where
  "age_labels = map lit [''0-12'', ''13-18'', ''19-30'', ''31-45'', ''46-60'', ''61-75'', ''76+'']"

definition age_band :: "num option \<Rightarrow> pystr option" where
  "age_band a = (case a of None \<Rightarrow> None | Some x \<Rightarrow> cut age_bins age_labels x)"

definition age_cleanup :: "env \<Rightarrow> frame \<Rightarrow> frame" where
  "age_cleanup E df =
     (case map_of df (lit ''age'') of
        None \<Rightarrow> df
      | Some col \<Rightarrow>
          let age = map out_of_range (to_numeric E col)
          in setcol (setcol df (lit ''age'') (Numeric age))
               (lit ''age_band'') (Category (map age_band age)))"

subsection \<open>Full name fallback\<close>

text \<open>
  \<^verbatim>\<open>col.fillna("")\<close> as an operand of \<^verbatim>\<open>+\<close> with a string. On an object column the
  missing cells become empty strings. A numeric column turns into strings only when
  it has rows and all of them are NaN; a number or a timestamp plus a string is a
  TypeError.
\<close>

definition fillna_empty :: "column \<Rightarrow> error + pystr list" where
  "fillna_empty col =
     (case col of
        Object xs \<Rightarrow> Inr (map (\<lambda>x. case x of None \<Rightarrow> [] | Some s \<Rightarrow> s) xs)
      | Numeric xs \<Rightarrow> if xs \<noteq> [] \<and> list_all (\<lambda>x. x = None) xs then Inr (map (\<lambda>x. []) xs)
                      else Inl TypeError
      | Datetime xs \<Rightarrow> Inl TypeError
      | Category xs \<Rightarrow> Inl TypeError)"

definition join_names :: "env \<Rightarrow> pystr \<Rightarrow> pystr \<Rightarrow> pystr" where
  "join_names E a b = strip E (re_sub_spaces E (lit '' '') False (a @ lit '' '' @ b))"

text \<open>
  \<^verbatim>\<open>df.get("last_name")\<close> is None when the column is absent, and \<^verbatim>\<open>None.fillna\<close>
  raises AttributeError. Python evaluates \<^verbatim>\<open>first.fillna("") + " "\<close> before it reaches
  \<^verbatim>\<open>last.fillna("")\<close>.
\<close>

definition full_name_fallback :: "env \<Rightarrow> frame \<Rightarrow> error + frame" where
  "full_name_fallback E df =
     (if \<not> has df (lit ''fullname'') \<and> (has df (lit ''firstname'') \<or> has df (lit ''first_name''))
      then
        let first = (if has df (lit ''firstname'') then map_of df (lit ''firstname'')
                     else map_of df (lit ''first_name''));
            last = (if has df (lit ''lastname'') then map_of df (lit ''lastname'')
                    else map_of df (lit ''last_name''))
        in (case first of
              None \<Rightarrow> Inl AttributeError
            | Some f \<Rightarrow>
               (case fillna_empty f of
                  Inl e \<Rightarrow> Inl e
                | Inr fs \<Rightarrow>
                   (case last of
                      None \<Rightarrow> Inl AttributeError
                    | Some l \<Rightarrow>
                       (case fillna_empty l of
                          Inl e \<Rightarrow> Inl e
                        | Inr ls \<Rightarrow>
                            Inr (setcol df (lit ''fullname'')
                                   (Object (map (\<lambda>(a, b). Some (join_names E a b)) (zip fs ls))))))))
      else if has df (lit ''fullname'')
      then Inr (modify (lit ''fullname'')
                  (\<lambda>col. Object (map (\<lambda>s. Some (strip E s)) (astype_str E col))) df)
      else Inr df)"

subsection \<open>Membership flags\<close>

definition trunc_zero :: "rat \<Rightarrow> int" where
  "trunc_zero q = (if 0 \<le> q then \<lfloor>q\<rfloor> else \<lceil>q\<rceil>)"

text \<open>
  \<^verbatim>\<open>astype(int)\<close> on a float64 column: a NaN or an infinity raises, a finite value is
  truncated towards zero.
\<close>

fun astype_int :: "env \<Rightarrow> num list \<Rightarrow> error + int list" where
  "astype_int E [] = Inr []"
| "astype_int E (Fin q # xs) =
     (case astype_int E xs of
        Inl e \<Rightarrow> Inl e
      | Inr ks \<Rightarrow>
          Inr ((if - (2 ^ 63) \<le> trunc_zero q \<and> trunc_zero q < 2 ^ 63 then trunc_zero q
                else int_of_oob E q) # ks))"
| "astype_int E (x # xs) = Inl IntCastingNaNError"

definition fillna_zero :: "num option \<Rightarrow> num" where
  "fillna_zero x = (case x of None \<Rightarrow> Fin 0 | Some v \<Rightarrow> v)"

definition membership_flag :: "env \<Rightarrow> column \<Rightarrow> error + column" where
  "membership_flag E col =
     (case astype_int E (map fillna_zero (to_numeric E col)) of
        Inl e \<Rightarrow> Inl e
      | Inr ks \<Rightarrow> Inr (Numeric (map (\<lambda>k. Some (Fin (of_int k))) ks)))"

fun membership_loop :: "env \<Rightarrow> pystr list \<Rightarrow> frame \<Rightarrow> error + frame" where
  "membership_loop E [] df = Inr df"
| "membership_loop E (m # ms) df =
     (case map_of df m of
        None \<Rightarrow> membership_loop E ms df
      | Some col \<Rightarrow>
         (case membership_flag E col of
            Inl e \<Rightarrow> Inl e
          | Inr col' \<Rightarrow> membership_loop E ms (setcol df m col')))"

definition membership_status :: "column \<Rightarrow> column" where
  "membership_status col =
     Object (map (\<lambda>x. Some (if x = Some (Number (Fin 1)) then lit ''Active'' else lit ''Inactive''))
               (col_cells col))"

definition membership_flags :: "env \<Rightarrow> frame \<Rightarrow> error + frame" where
  "membership_flags E df =
     (case membership_loop E [lit ''ismembershipactive'', lit ''ismembershiptakendirectly''] df of
        Inl e \<Rightarrow> Inl e
      | Inr df' \<Rightarrow>
         (case map_of df' (lit ''ismembershipactive'') of
            None \<Rightarrow> Inr df'
          | Some col \<Rightarrow> Inr (setcol df' (lit ''membership_status'') (membership_status col))))"

subsection \<open>Deduplication\<close>

text \<open>
  \<^verbatim>\<open>df.duplicated(subset, keep="first")\<close>: a row is a duplicate when the values it has
  in the columns named were seen in an earlier row. Missing values count as equal
  to each other.
\<close>

fun duplicated :: "'a list \<Rightarrow> 'a list \<Rightarrow> bool list" where
  "duplicated seen [] = []"
| "duplicated seen (k # ks) = (k \<in> set seen) # duplicated (k # seen) ks"

definition row_keys :: "frame \<Rightarrow> pystr list \<Rightarrow> val option list list" where
  "row_keys df names =
     map (\<lambda>i. map (\<lambda>col. col_cells col ! i) (List.map_filter (map_of df) names)) [0..<nrows df]"

definition keep_rows :: "bool list \<Rightarrow> 'a list \<Rightarrow> 'a list" where
  "keep_rows dup xs = map snd (filter (\<lambda>(d, x). \<not> d) (zip dup xs))"

definition drop_rows :: "bool list \<Rightarrow> column \<Rightarrow> column" where
  "drop_rows dup col =
     (case col of
        Object xs \<Rightarrow> Object (keep_rows dup xs)
      | Numeric xs \<Rightarrow> Numeric (keep_rows dup xs)
      | Datetime xs \<Rightarrow> Datetime (keep_rows dup xs)
      | Category xs \<Rightarrow> Category (keep_rows dup xs))"

definition drop_duplicates :: "pystr list \<Rightarrow> frame \<Rightarrow> frame" where
  "drop_duplicates names df =
     (let dup = duplicated [] (row_keys df names)
      in map (\<lambda>(c, col). (c, drop_rows dup col)) df)"

definition key_names :: "pystr list" where
  "key_names = map lit [''patientid'', ''patient_id'', ''guid'', ''patientguid'']"

definition fallback_names :: "pystr list" where
  "fallback_names = map lit [''fullname'', ''mobile'', ''mobileno'', ''phone'', ''age'', ''sex'', ''gender'']"

definition deduplication :: "frame \<Rightarrow> frame" where
  "deduplication df =
     (let key_cols = filter (has df) key_names
      in if key_cols \<noteq> [] then drop_duplicates key_cols df
         else let fallback = filter (has df) fallback_names
              in if fallback \<noteq> [] then drop_duplicates fallback df
                 else drop_duplicates (map fst df) df)"

subsection \<open>Missing handling\<close>

definition id_words :: "pystr list" where
  "id_words = map lit [''id'', ''guid'', ''code'']"

definition fillna_unknown :: "column \<Rightarrow> column" where
  "fillna_unknown col =
     (case col of
        Object xs \<Rightarrow> Object (map (\<lambda>x. case x of None \<Rightarrow> Some (lit ''Unknown'') | Some s \<Rightarrow> Some s) xs)
      | _ \<Rightarrow> col)"

definition missing_handling :: "frame \<Rightarrow> frame" where
  "missing_handling df =
     map (\<lambda>(c, col). (c, if is_object col \<and> \<not> any_in id_words c then fillna_unknown col else col)) df"

subsection \<open>Summaries\<close>

definition missing_count :: "column \<Rightarrow> nat" where
  "missing_count col = length (filter (\<lambda>x. x = None) (col_cells col))"

text \<open>
  numpy rounds to the nearest multiple of \<open>1/10000\<close>, a tie going to the even one. The
  float64 arithmetic is taken as exact arithmetic on rationals. A count divided by
  zero rows is NaN for the count zero and infinite otherwise.
\<close>

definition rint :: "rat \<Rightarrow> int" where
  "rint q =
     (let f = \<lfloor>q\<rfloor>; d = q - of_int f
      in if d < 1 / 2 then f else if 1 / 2 < d then f + 1 else if even f then f else f + 1)"

definition round4 :: "rat \<Rightarrow> rat" where
  "round4 q = of_int (rint (q * 10000)) / 10000"

definition missing_pct :: "nat \<Rightarrow> nat \<Rightarrow> num option" where
  "missing_pct count n =
     (if n = 0 then (if count = 0 then None else Some PosInf)
      else Some (Fin (round4 (of_nat count / of_nat n))))"

record summary_row =
  column_name :: pystr
  sr_missing_count :: nat
  sr_missing_pct :: "num option"

definition missing_summary :: "frame \<Rightarrow> summary_row list" where
  "missing_summary df =
     map (\<lambda>(c, col). \<lparr> column_name = c, sr_missing_count = missing_count col,
                       sr_missing_pct = missing_pct (missing_count col) (nrows df) \<rparr>) df"

subsection \<open>The whole script, up to the summaries\<close>

definition clean :: "env \<Rightarrow> frame \<Rightarrow> error + frame" where
  "clean E df_raw =
     (case light_cleaning E (load E df_raw) of
        Inl e \<Rightarrow> Inl e
      | Inr df1 \<Rightarrow>
         (case full_name_fallback E
                 (age_cleanup E (gender_normalization E (parse_dates E (coerce_numerics E df1)))) of
            Inl e \<Rightarrow> Inl e
          | Inr df2 \<Rightarrow>
             (case membership_flags E df2 of
                Inl e \<Rightarrow> Inl e
              | Inr df3 \<Rightarrow> Inr (missing_handling (deduplication df3)))))"

definition pipeline :: "env \<Rightarrow> frame \<Rightarrow> error + frame \<times> summary_row list" where
  "pipeline E df_raw =
     (case clean E df_raw of
        Inl e \<Rightarrow> Inl e
      | Inr df \<Rightarrow> Inr (df, missing_summary df))"

section \<open>A runtime for the worked examples\<close>

text \<open>
  The examples below run the definitions on concrete tables, so they need a concrete
  runtime. This one is an excerpt of CPython 3 and pandas. Of the Unicode database it
  has U+0130 (capital I with dot above), a letter that lower-cases to U+0069 U+0307;
  U+0307 (combining dot above), a mark that is neither alphanumeric nor a space; and
  U+00A0 (no-break space), a space. Of \<^verbatim>\<open>pd.to_numeric\<close> it has the unsigned decimal
  integers. Of the cast to int64 it has what an x86-64 leaves for a float out of range.
  Every other entry is a filler (a caseless symbol, an unparsable string, a date that
  does not parse, a question mark for a printed number): the examples never reach one,
  and every theorem about all inputs is stated for an arbitrary runtime instead.
\<close>

fun digits_value :: "nat \<Rightarrow> pystr \<Rightarrow> nat option" where
  "digits_value acc [] = Some acc"
| "digits_value acc (c # cs) =
     (if 48 \<le> c \<and> c \<le> 57 then digits_value (10 * acc + (c - 48)) cs else None)"

definition py_env :: env where
  "py_env = \<lparr> ucd_space = (\<lambda>c. c = 160),
              ucd_alnum = (\<lambda>c. c = 304),
              ucd_lower = (\<lambda>pre c post. if c = 304 then [105, 775] else [c]),
              num_of_str = (\<lambda>s. if s = [] then None
                                 else map_option (\<lambda>n. Fin (of_nat n)) (digits_value 0 s)),
              str_of_num = (\<lambda>x. lit ''?''),
              str_of_time = (\<lambda>t. lit ''?''),
              datetime_of = (\<lambda>col i. None),
              int_of_oob = (\<lambda>q. - (2 ^ 63)) \<rparr>"

section \<open>Definitions used in the statements and proofs\<close>

text \<open>The characters a normalised ASCII name is made of: digits, small letters, underscore.\<close>

definition snake_char :: "nat \<Rightarrow> bool" where
  "snake_char c = ((48 \<le> c \<and> c \<le> 57) \<or> (97 \<le> c \<and> c \<le> 122) \<or> c = 95)"

text \<open>Every column has \<open>n\<close> rows.\<close>

definition all_len :: "nat \<Rightarrow> frame \<Rightarrow> bool" where
  "all_len n df = (\<forall>p \<in> set df. col_len (snd p) = n)"

definition nonnull_count :: "column \<Rightarrow> nat" where
  "nonnull_count col = length (filter (\<lambda>x. x \<noteq> None) (col_cells col))"

text \<open>
  \<open>r\<close> is \<open>q\<close> rounded to four decimal places: a multiple of \<open>1/10000\<close> at most half
  a unit away from \<open>q\<close>. Either neighbour will do at a tie.
\<close>

definition rounded_to_4_places :: "rat \<Rightarrow> rat \<Rightarrow> bool" where
  "rounded_to_4_places q r = (of_int \<lfloor>r * 10000\<rfloor> = r * 10000 \<and> \<bar>r - q\<bar> \<le> 1 / 20000)"

text \<open>The column name contains \<^verbatim>\<open>id\<close>, \<^verbatim>\<open>guid\<close> or \<^verbatim>\<open>code\<close>.\<close>

definition id_like :: "pystr \<Rightarrow> bool" where
  "id_like c = (sublist (lit ''id'') c \<or> sublist (lit ''guid'') c \<or> sublist (lit ''code'') c)"

text \<open>The tables of the worked examples, as \<^verbatim>\<open>pd.read_excel\<close> returns them.\<close>

definition scenario :: frame where
  "scenario =
     [(lit ''Patient ID'', Numeric [Some (Fin 1), Some (Fin 1), Some (Fin 2)]),
      (lit ''Age'', Numeric [Some (Fin 200), Some (Fin 30), Some (Fin (- 5))]),
      (lit ''Sex'', Object [Some (lit ''Male''), Some (lit ''m''), Some (lit ''other'')])]"

definition header_only :: frame where
  "header_only = [(lit ''Notes'', Object [])]"

text \<open>What the script makes of \<open>scenario\<close>: the cleaned table and its missing-value summary.\<close>

definition scenario_clean :: frame where
  "scenario_clean =
     [(lit ''patient_id'', Numeric [Some (Fin 1), Some (Fin 2)]),
      (lit ''age'', Numeric [None, None]),
      (lit ''sex'', Object [Some (lit ''M''), Some (lit ''O'')]),
      (lit ''age_band'', Category [None, None])]"

definition scenario_summary :: "summary_row list" where
  "scenario_summary =
     [\<lparr>column_name = lit ''patient_id'', sr_missing_count = 0, sr_missing_pct = Some (Fin 0)\<rparr>,
      \<lparr>column_name = lit ''age'', sr_missing_count = 2, sr_missing_pct = Some (Fin 1)\<rparr>,
      \<lparr>column_name = lit ''sex'', sr_missing_count = 0, sr_missing_pct = Some (Fin 0)\<rparr>,
      \<lparr>column_name = lit ''age_band'', sr_missing_count = 2, sr_missing_pct = Some (Fin 1)\<rparr>]"

definition blank_notes :: frame where
  "blank_notes = [(lit ''Notes'', Object [Some (lit '' ''), Some []]),
                  (lit ''Visit'', Numeric [Some (Fin 1), Some (Fin 2)])]"

definition only_first_name :: frame where
  "only_first_name = [(lit ''FirstName'', Object [Some (lit ''Ann'')])]"

definition newborn :: frame where
  "newborn = [(lit ''Age'', Numeric [Some (Fin 0)])]"

text \<open>The rows of a table, each cell under the name of its column.\<close>

definition frame_rows :: "frame \<Rightarrow> (pystr \<times> val option) list list" where
  "frame_rows df = map (\<lambda>i. map (\<lambda>(c, col). (c, col_cells col ! i)) df) [0..<nrows df]"

text \<open>The rows of the cleaned table in which column \<open>c\<close> has the value \<open>v\<close>.\<close>

definition cleaned_rows_with :: "env \<Rightarrow> frame \<Rightarrow> pystr \<Rightarrow> val \<Rightarrow> (pystr \<times> val option) list list" where
  "cleaned_rows_with E df_raw c v =
     (case clean E df_raw of
        Inl e \<Rightarrow> []
      | Inr df \<Rightarrow> filter (\<lambda>r. map_of r c = Some (Some v)) (frame_rows df))"

text \<open>
  The positions of the first occurrences in a list of keys: position \<open>i\<close> is one when no
  earlier position holds the same key.
\<close>

definition first_occurrences :: "'a list \<Rightarrow> nat list" where
  "first_occurrences ks = filter (\<lambda>i. ks ! i \<notin> set (take i ks)) [0..<length ks]"

text \<open>The rows of a column, and of a table, at the given positions, in that order.\<close>

definition rows_at :: "nat list \<Rightarrow> column \<Rightarrow> column" where
  "rows_at idx col =
     (case col of
        Object xs \<Rightarrow> Object (map (\<lambda>i. xs ! i) idx)
      | Numeric xs \<Rightarrow> Numeric (map (\<lambda>i. xs ! i) idx)
      | Datetime xs \<Rightarrow> Datetime (map (\<lambda>i. xs ! i) idx)
      | Category xs \<Rightarrow> Category (map (\<lambda>i. xs ! i) idx))"

definition take_rows :: "nat list \<Rightarrow> frame \<Rightarrow> frame" where
  "take_rows idx df = map (\<lambda>(c, col). (c, rows_at idx col)) df"

text \<open>
  Tables as they stand in the middle of a run, their names already normalised: before
  the missing-value finalizer, before deduplication, before the membership deriver.
\<close>

definition notes_table :: frame where
  "notes_table = [(lit ''notes'', Object [Some (lit ''ok''), None]),
                  (lit ''ward_code'', Object [None, Some (lit ''W1'')]),
                  (lit ''visits'', Numeric [None, Some (Fin 3)])]"

definition two_ids :: frame where
  "two_ids = [(lit ''patientid'', Numeric [Some (Fin 1), Some (Fin 1)]),
              (lit ''guid'', Object [Some (lit ''a''), Some (lit ''b'')])]"


text \<open>
  A fact of the Unicode database that the parameter has to share: lower-casing never
  produces an ASCII capital letter.
\<close>

definition lower_no_capitals :: "env \<Rightarrow> bool" where
  "lower_no_capitals E =
     (\<forall>pre c post. 128 \<le> c \<longrightarrow> (\<forall>d \<in> set (ucd_lower E pre c post). \<not> (65 \<le> d \<and> d \<le> 90)))"

text \<open>What the missing-value finalizer does to the column named \<open>c\<close>.\<close>

definition finalize :: "pystr \<Rightarrow> column \<Rightarrow> column" where
  "finalize c col = (if is_object col \<and> \<not> id_like c then fillna_unknown col else col)"

definition gender_codes :: "pystr option set" where
  "gender_codes = {Some (lit ''M''), Some (lit ''F''), Some (lit ''O''), Some (lit ''Unknown'')}"

section \<open>Column names\<close>

lemma snake_char_facts:
  "snake_char c \<Longrightarrow> c < 128 \<and> \<not> isspace E c \<and> isword E c \<and> ascii_lower c = c"
  by (auto simp: snake_char_def isspace_def isword_def ascii_space_def ascii_alnum_def ascii_lower_def)

lemma lower_from_ascii:
  "\<forall>c\<in>set s. c < 128 \<Longrightarrow> lower_from E pre s = map ascii_lower s"
  by (induction s arbitrary: pre) auto

lemma dropWhile_none: "\<forall>c\<in>set s. \<not> P c \<Longrightarrow> dropWhile P s = s"
  by (cases s) auto

lemma strip_fixed: "\<forall>c\<in>set s. \<not> isspace E c \<Longrightarrow> strip E s = s"
  by (simp add: strip_def dropWhile_none)

lemma set_strip: "set (strip E s) \<subseteq> set s"
  by (auto simp: strip_def dest!: set_dropWhileD)

lemma re_sub_spaces_fixed:
  "\<forall>c\<in>set s. \<not> isspace E c \<Longrightarrow> re_sub_spaces E rep run s = s"
  by (induction s arbitrary: run) auto

lemma re_sub_spaces_chars:
  "set (re_sub_spaces E rep run s) \<subseteq> set rep \<union> {c \<in> set s. \<not> isspace E c}"
  by (induction s arbitrary: run) auto

text \<open>A name made of digits, small letters and underscores is its own normal form.\<close>

lemma to_snake_fixed:
  assumes "\<forall>c\<in>set s. snake_char c"
  shows "to_snake E s = s"
proof -
  from assms have a: "\<forall>c\<in>set s. \<not> isspace E c" and b: "\<forall>c\<in>set s. isword E c"
    and c: "\<forall>c\<in>set s. c < 128" and d: "\<forall>c\<in>set s. ascii_lower c = c"
    using snake_char_facts by blast+
  have "re_sub_nonword E s = s" using b by (simp add: re_sub_nonword_def)
  moreover have "lower E s = s" using c d by (simp add: lower_def lower_from_ascii map_idI)
  ultimately show ?thesis using a
    by (simp add: to_snake_def strip_fixed re_sub_spaces_fixed)
qed

lemma ascii_word_lower: "c < 128 \<Longrightarrow> isword E c \<Longrightarrow> snake_char (ascii_lower c)"
  by (auto simp: snake_char_def isword_def ascii_alnum_def ascii_lower_def)

text \<open>The normal form of an ASCII header is made of such characters only.\<close>

lemma to_snake_chars:
  assumes "\<forall>c\<in>set s. c < 128"
  shows "\<forall>c\<in>set (to_snake E s). snake_char c"
proof -
  let ?s1 = "strip E s"
  let ?s2 = "re_sub_nonword E ?s1"
  let ?s3 = "re_sub_spaces E (lit ''_'') False ?s2"
  have s2: "\<forall>c\<in>set ?s2. c < 128 \<and> (isword E c \<or> isspace E c)"
    using assms set_strip [of E s] by (auto simp: re_sub_nonword_def)
  have "\<forall>c\<in>set ?s3. c < 128 \<and> isword E c"
  proof
    fix c assume "c \<in> set ?s3"
    then have "c \<in> set (lit ''_'') \<or> (c \<in> set ?s2 \<and> \<not> isspace E c)"
      using re_sub_spaces_chars by fastforce
    then show "c < 128 \<and> isword E c"
      using s2 by (auto simp: lit_def isword_def)
  qed
  then have s3: "\<forall>c\<in>set ?s3. c < 128" and w3: "\<forall>c\<in>set ?s3. snake_char (ascii_lower c)"
    using ascii_word_lower by blast+
  have "to_snake E s = map ascii_lower ?s3"
    using s3 by (simp add: to_snake_def lower_def lower_from_ascii)
  then show ?thesis using w3 by simp
qed

lemma to_snake_patient_id:
  "to_snake E (lit ''Patient ID '') = lit ''patient_id''" "to_snake E (lit ''patient_id'') = lit ''patient_id''"
  by (simp_all add: to_snake_def lit_def strip_def re_sub_nonword_def lower_def isspace_def
      isword_def ascii_space_def ascii_alnum_def ascii_lower_def)

text \<open>
  The same holds beyond ASCII for a name of word characters, none of them a space, that
  lower-casing leaves as it is.
\<close>

lemma to_snake_fixed_words:
  assumes "\<forall>c\<in>set t. isword E c \<and> \<not> isspace E c" and "lower E t = t"
  shows "to_snake E t = t"
proof -
  have "re_sub_nonword E t = t" using assms(1) by (simp add: re_sub_nonword_def)
  then show ?thesis
    using assms by (simp add: to_snake_def strip_fixed re_sub_spaces_fixed)
qed

text \<open>
  Claim C7, as the script has it. Normalising a column name twice gives the same as
  normalising it once for every name of ASCII characters, in every runtime, and more
  generally for every name whose normal form consists of word characters that are not
  spaces and is left as it is by lower-casing; and \<^verbatim>\<open>"Patient ID "\<close> and
  \<^verbatim>\<open>"patient_id"\<close> have the same normal form. For other names the first part can
  fail, see below.
\<close>

theorem to_snake_idempotent_ascii:
  "((\<forall>c\<in>set s. c < 128) \<longrightarrow> to_snake E (to_snake E s) = to_snake E s)
   \<and> ((\<forall>c\<in>set (to_snake E s). isword E c \<and> \<not> isspace E c)
        \<and> lower E (to_snake E s) = to_snake E s
        \<longrightarrow> to_snake E (to_snake E s) = to_snake E s)
   \<and> to_snake E (lit ''Patient ID '') = to_snake E (lit ''patient_id'')"
  using to_snake_chars [of s E] to_snake_fixed [of "to_snake E s" E]
    to_snake_fixed_words [of "to_snake E s" E] to_snake_patient_id [of E]
  by auto

theorem to_snake_idempotent_ascii_witness:
  "list_all (\<lambda>c. c < 128) (lit ''Patient ID '')
   \<and> to_snake py_env (to_snake py_env (lit ''Patient ID '')) = to_snake py_env (lit ''Patient ID '')
   \<and> to_snake py_env (lit ''Patient ID '') = to_snake py_env (lit ''patient_id'')"
proof -
  have a: "list_all (\<lambda>c. c < 128) (lit ''Patient ID '')" by (simp add: lit_def)
  then have "\<forall>c\<in>set (lit ''Patient ID ''). c < 128" by (simp only: list_all_iff)
  with a to_snake_idempotent_ascii [of "lit ''Patient ID ''" py_env] show ?thesis by blast
qed

text \<open>
  Claim C7 as stated, for every string, is false. The header made of the one letter
  U+0130 (code point 304) is normalised to U+0069 U+0307: Python lower-cases the letter
  to a small i followed by a combining dot. The dot is not a word character, so the
  second normalisation deletes it and leaves the single letter i.
\<close>

theorem to_snake_not_idempotent:
  "to_snake py_env (to_snake py_env [304]) \<noteq> to_snake py_env [304]"
  by (simp add: to_snake_def lit_def strip_def re_sub_nonword_def lower_def isspace_def
      isword_def ascii_space_def ascii_alnum_def ascii_lower_def py_env_def)

section \<open>Frames\<close>

lemma has_map_of: "has df c \<longleftrightarrow> map_of df c \<noteq> None"
  by (simp add: has_def map_of_eq_None_iff)

lemma map_of_setcol: "map_of (setcol df c col) k = (if k = c then Some col else map_of df k)"
  by (simp add: setcol_def update_conv')

lemma map_of_modify:
  "map_of (modify c f df) k = (if k = c then map_option f (map_of df c) else map_of df k)"
  by (auto simp: modify_def map_of_setcol split: option.splits)

lemma map_of_map_cols:
  "map_of (map (\<lambda>(c, col). (c, f c col)) df) k = map_option (f k) (map_of df k)"
  by (induction df) auto

lemma names_setcol:
  "set (map fst (setcol df c col)) = insert c (set (map fst df))"
  by (auto simp: setcol_def update_keys)

lemma names_map_cols: "map fst (map (\<lambda>(c, col). (c, f c col)) df) = map fst df"
  by (induction df) auto

lemma distinct_setcol: "distinct (map fst df) \<Longrightarrow> distinct (map fst (setcol df c col))"
  by (simp add: setcol_def distinct_update)

lemma cols_setcol: "set (setcol df c col) \<subseteq> insert (c, col) (set df)"
  unfolding setcol_def by (induction df) auto

lemma setcol_nonempty: "setcol df c col \<noteq> []"
  unfolding setcol_def by (cases df) auto

subsection \<open>Row counts\<close>

lemma all_len_nrows: "all_len n df \<Longrightarrow> df \<noteq> [] \<Longrightarrow> nrows df = n"
  by (cases df) (auto simp: all_len_def nrows_def)

lemma rectangular_all_len: "rectangular df \<longleftrightarrow> all_len (nrows df) df"
  by (auto simp: rectangular_def all_len_def)

lemma all_len_rectangular: "all_len n df \<Longrightarrow> rectangular df"
  by (cases "df = []") (auto simp: rectangular_all_len all_len_nrows, simp add: all_len_def)

lemma all_len_setcol: "all_len n df \<Longrightarrow> col_len col = n \<Longrightarrow> all_len n (setcol df c col)"
  using cols_setcol [of df c col] by (fastforce simp: all_len_def)

lemma all_len_lookup: "all_len n df \<Longrightarrow> map_of df c = Some col \<Longrightarrow> col_len col = n"
  by (fastforce simp: all_len_def dest!: map_of_SomeD)

lemma all_len_modify:
  "all_len n df \<Longrightarrow> (\<And>col. col_len (f col) = col_len col) \<Longrightarrow> all_len n (modify c f df)"
  by (auto simp: modify_def all_len_lookup split: option.splits intro!: all_len_setcol)

lemma all_len_map_cols:
  "all_len n df \<Longrightarrow> (\<And>c col. col_len (f c col) = col_len col)
    \<Longrightarrow> all_len n (map (\<lambda>(c, col). (c, f c col)) df)"
  by (auto simp: all_len_def)

lemma col_len_simps [simp]:
  "col_len (Object xs) = length xs" "col_len (Numeric ys) = length ys"
  "col_len (Datetime zs) = length zs" "col_len (Category ws) = length ws"
  by (simp_all add: col_len_def col_cells_def)

lemma length_astype_str [simp]: "length (astype_str E col) = col_len col"
  by (cases col) (simp_all add: astype_str_def)

lemma length_to_numeric [simp]: "length (to_numeric E col) = col_len col"
  by (cases col) (simp_all add: to_numeric_def)

lemma col_len_to_datetime [simp]: "col_len (to_datetime E col) = col_len col"
  by (cases col) (simp_all add: to_datetime_def)

lemma col_len_strip_strings [simp]: "col_len (strip_strings E col) = col_len col"
  by (simp add: strip_strings_def infer_objects_def)

lemma col_len_fillna_unknown [simp]: "col_len (fillna_unknown col) = col_len col"
  by (cases col) (simp_all add: fillna_unknown_def)

lemma all_len_load: "all_len n (load E df) = all_len n df"
  by (force simp: all_len_def load_def)

lemma all_len_light_cleaning:
  "light_cleaning E df = Inr df' \<Longrightarrow> all_len n df \<Longrightarrow> all_len n df'"
  by (fastforce simp: light_cleaning_def all_len_def split: if_splits)

lemma all_len_fold_modify:
  "all_len n df \<Longrightarrow> (\<And>c col. col_len (f c col) = col_len col)
     \<Longrightarrow> all_len n (fold (\<lambda>c. modify c (f c)) cs df)"
  by (induction cs arbitrary: df) (simp_all add: all_len_modify)

lemma all_len_coerce_numerics: "all_len n df \<Longrightarrow> all_len n (coerce_numerics E df)"
  unfolding coerce_numerics_def by (rule all_len_fold_modify) simp_all

lemma all_len_parse_dates: "all_len n df \<Longrightarrow> all_len n (parse_dates E df)"
  by (fastforce simp: parse_dates_def all_len_def)

lemma all_len_gender: "all_len n df \<Longrightarrow> all_len n (gender_normalization E df)"
  by (auto simp: gender_normalization_def all_len_modify split: option.splits)

lemma all_len_age: "all_len n df \<Longrightarrow> all_len n (age_cleanup E df)"
  by (auto simp: age_cleanup_def Let_def all_len_setcol all_len_lookup split: option.splits)

lemma length_fillna_empty: "fillna_empty col = Inr xs \<Longrightarrow> length xs = col_len col"
  by (cases col) (auto simp: fillna_empty_def split: if_splits)

lemma all_len_full_name:
  "full_name_fallback E df = Inr df' \<Longrightarrow> all_len n df \<Longrightarrow> all_len n df'"
proof -
  assume r: "full_name_fallback E df = Inr df'" and a: "all_len n df"
  show ?thesis
  proof (cases "\<not> has df (lit ''fullname'') \<and> (has df (lit ''firstname'') \<or> has df (lit ''first_name''))")
    case True
    with r obtain f l fs ls where f: "map_of df (if has df (lit ''firstname'') then lit ''firstname'' else lit ''first_name'') = Some f"
      and l: "map_of df (if has df (lit ''lastname'') then lit ''lastname'' else lit ''last_name'') = Some l"
      and fs: "fillna_empty f = Inr fs" and ls: "fillna_empty l = Inr ls"
      and d: "df' = setcol df (lit ''fullname'') (Object (map (\<lambda>(a, b). Some (join_names E a b)) (zip fs ls)))"
      by (auto simp: full_name_fallback_def Let_def split: if_splits option.splits sum.splits)
    have "length fs = n" "length ls = n"
      using f l fs ls a by (auto dest!: length_fillna_empty simp: all_len_lookup)
    then show ?thesis unfolding d using a by (intro all_len_setcol) simp_all
  next
    case False
    with r a show ?thesis
      by (auto simp: full_name_fallback_def all_len_modify split: if_splits)
  qed
qed


lemma length_astype_int: "astype_int E xs = Inr ks \<Longrightarrow> length ks = length xs"
  by (induction E xs arbitrary: ks rule: astype_int.induct) (auto split: sum.splits)

lemma col_len_membership_flag: "membership_flag E col = Inr col' \<Longrightarrow> col_len col' = col_len col"
  by (auto simp: membership_flag_def split: sum.splits dest!: length_astype_int)

lemma all_len_membership_loop:
  "membership_loop E ms df = Inr df' \<Longrightarrow> all_len n df \<Longrightarrow> all_len n df'"
proof (induction E ms df rule: membership_loop.induct)
  case (1 E df)
  then show ?case by simp
next
  case (2 E m ms df)
  show ?case
  proof (cases "map_of df m")
    case None
    with 2 show ?thesis by simp
  next
    case (Some col)
    with "2.prems" obtain col' where c: "membership_flag E col = Inr col'"
      and r: "membership_loop E ms (setcol df m col') = Inr df'"
      by (auto split: sum.splits)
    have "col_len col' = n"
      using c Some "2.prems"(2) by (simp add: col_len_membership_flag all_len_lookup)
    then have "all_len n (setcol df m col')"
      using "2.prems"(2) by (simp add: all_len_setcol)
    with "2.IH"(2) Some c r show ?thesis by simp
  qed
qed

lemma col_len_membership_status [simp]: "col_len (membership_status col) = col_len col"
  by (simp add: membership_status_def) (simp add: col_len_def)

lemma all_len_membership_flags:
  "membership_flags E df = Inr df' \<Longrightarrow> all_len n df \<Longrightarrow> all_len n df'"
proof -
  assume r: "membership_flags E df = Inr df'" and a: "all_len n df"
  from r obtain df1 where
    l: "membership_loop E [lit ''ismembershipactive'', lit ''ismembershiptakendirectly''] df = Inr df1"
    by (auto simp: membership_flags_def split: sum.splits)
  from l a have a1: "all_len n df1" by (rule all_len_membership_loop)
  show ?thesis
  proof (cases "map_of df1 (lit ''ismembershipactive'')")
    case None
    with r l a1 show ?thesis by (simp add: membership_flags_def)
  next
    case (Some col)
    with a1 have "col_len col = n" by (simp add: all_len_lookup)
    with r l a1 Some show ?thesis
      by (auto simp: membership_flags_def intro!: all_len_setcol)
  qed
qed

lemma length_duplicated [simp]: "length (duplicated seen ks) = length ks"
  by (induction ks arbitrary: seen) auto

lemma length_row_keys [simp]: "length (row_keys df names) = nrows df"
  by (simp add: row_keys_def)

lemma length_keep_rows:
  "length xs = length dup \<Longrightarrow> length (keep_rows dup xs) = length (filter Not dup)"
proof (induction dup arbitrary: xs)
  case Nil
  then show ?case by (simp add: keep_rows_def)
next
  case (Cons d dup)
  then obtain y ys where "xs = y # ys" by (cases xs) auto
  with Cons show ?case by (auto simp: keep_rows_def)
qed

lemma col_len_drop_rows:
  "col_len col = length dup \<Longrightarrow> col_len (drop_rows dup col) = length (filter Not dup)"
  by (cases col) (simp_all add: drop_rows_def length_keep_rows)

lemma all_len_drop_duplicates:
  assumes "all_len n df"
  shows "all_len (length (filter Not (duplicated [] (row_keys df names)))) (drop_duplicates names df)"
proof (cases "df = []")
  case True
  then show ?thesis by (simp add: drop_duplicates_def all_len_def)
next
  case False
  with assms have "nrows df = n" by (simp add: all_len_nrows)
  with assms show ?thesis
    by (fastforce simp: drop_duplicates_def all_len_def Let_def intro!: col_len_drop_rows)
qed

lemma rectangular_deduplication: "all_len n df \<Longrightarrow> \<exists>m. all_len m (deduplication df)"
  unfolding deduplication_def Let_def by (auto intro: all_len_drop_duplicates)

lemma all_len_missing_handling: "all_len n df \<Longrightarrow> all_len n (missing_handling df)"
  by (fastforce simp: missing_handling_def all_len_def)

lemma rectangular_clean:
  assumes "clean E df_raw = Inr df" and "rectangular df_raw"
  shows "rectangular df"
proof -
  from assms(2) have a0: "all_len (nrows df_raw) (load E df_raw)"
    by (simp add: rectangular_all_len all_len_load)
  from assms(1) obtain df1 df2 df3 where
    c1: "light_cleaning E (load E df_raw) = Inr df1" and
    c2: "full_name_fallback E
           (age_cleanup E (gender_normalization E (parse_dates E (coerce_numerics E df1)))) = Inr df2" and
    c3: "membership_flags E df2 = Inr df3" and
    c4: "df = missing_handling (deduplication df3)"
    by (auto simp: clean_def split: sum.splits)
  let ?n = "nrows df_raw"
  have "all_len ?n df1" using c1 a0 by (rule all_len_light_cleaning)
  then have "all_len ?n (age_cleanup E (gender_normalization E (parse_dates E (coerce_numerics E df1))))"
    by (intro all_len_age all_len_gender all_len_parse_dates all_len_coerce_numerics)
  with c2 have "all_len ?n df2" by (rule all_len_full_name)
  with c3 have "all_len ?n df3" by (rule all_len_membership_flags)
  then obtain m where "all_len m (deduplication df3)"
    using rectangular_deduplication by blast
  then have "all_len m df" unfolding c4 by (rule all_len_missing_handling)
  then show ?thesis by (rule all_len_rectangular)
qed

section \<open>Missing values and their summary\<close>

lemma any_in_id_words: "any_in id_words c = id_like c"
  by (simp add: any_in_def id_words_def id_like_def)

lemma length_missing_handling [simp]: "length (missing_handling df) = length df"
  by (simp add: missing_handling_def)

lemma nth_missing_handling:
  "i < length df \<Longrightarrow> missing_handling df ! i =
     (fst (df ! i), if is_object (snd (df ! i)) \<and> \<not> id_like (fst (df ! i))
                    then fillna_unknown (snd (df ! i)) else snd (df ! i))"
  by (simp add: missing_handling_def any_in_id_words split: prod.splits)

lemma missing_count_fillna_unknown: "is_object col \<Longrightarrow> missing_count (fillna_unknown col) = 0"
  by (cases col) (auto simp: is_object_def fillna_unknown_def missing_count_def col_cells_def
      filter_empty_conv split: option.splits)

lemma is_object_fillna_unknown [simp]: "is_object (fillna_unknown col) = is_object col"
  by (cases col) (simp_all add: is_object_def fillna_unknown_def)

lemma clean_is_filled: "clean E df_raw = Inr df \<Longrightarrow> \<exists>df'. df = missing_handling df'"
  by (auto simp: clean_def split: sum.splits)

lemma rint_zero: "rint 0 = 0"
  by (simp add: rint_def)

lemma round4_zero: "round4 0 = 0"
  by (simp add: round4_def rint_zero)

lemma rint_near: "\<bar>of_int (rint q) - q\<bar> \<le> 1 / 2"
proof -
  have "of_int \<lfloor>q\<rfloor> \<le> q" "q < of_int \<lfloor>q\<rfloor> + 1" by linarith+
  then show ?thesis by (auto simp: rint_def Let_def)
qed

lemma round4_rounded: "rounded_to_4_places q (round4 q)"
proof -
  have "\<bar>of_int (rint (q * 10000)) - q * 10000\<bar> \<le> 1 / 2" by (rule rint_near)
  then have "\<bar>round4 q - q\<bar> \<le> 1 / 20000"
    by (simp add: round4_def abs_le_iff field_simps)
  then show ?thesis by (simp add: rounded_to_4_places_def round4_def)
qed

lemma count_split: "missing_count col + nonnull_count col = col_len col"
  unfolding missing_count_def nonnull_count_def col_len_def
  using sum_length_filter_compl [of "\<lambda>x. x = None" "col_cells col"] by simp

text \<open>
  Claim C9. The missing-value finalizer keeps the columns and their names. A column
  whose name contains id, guid or code is left as it is, whatever its dtype. Of the
  other columns, an object column has each missing cell replaced by \<^verbatim>\<open>"Unknown"\<close>
  and its other cells kept, and a column of any other dtype is left as it is.
\<close>

theorem missing_handling_fills:
  "map fst (missing_handling df) = map fst df \<and>
   list_all2 (\<lambda>(c, col) (c', col').
       (id_like c \<longrightarrow> col' = col) \<and>
       (\<not> id_like c \<longrightarrow>
          (\<forall>xs. col = Object xs \<longrightarrow>
             col' = Object (map (\<lambda>x. if x = None then Some (lit ''Unknown'') else x) xs)) \<and>
          (\<not> is_object col \<longrightarrow> col' = col)))
     df (missing_handling df)"
proof -
  have a: "fillna_unknown (Object xs) = Object (map (\<lambda>x. if x = None then Some (lit ''Unknown'') else x) xs)" for xs
    by (simp add: fillna_unknown_def) (auto split: option.splits)
  show ?thesis
    unfolding missing_handling_def any_in_id_words
    by (auto simp: list_all2_map2 list_all2_same a is_object_def)
qed

theorem missing_handling_fills_witness:
  "missing_handling notes_table =
     [(lit ''notes'', Object [Some (lit ''ok''), Some (lit ''Unknown'')]),
      (lit ''ward_code'', Object [None, Some (lit ''W1'')]),
      (lit ''visits'', Numeric [None, Some (Fin 3)])]
   \<and> \<not> id_like (lit ''notes'') \<and> id_like (lit ''ward_code'') \<and> \<not> id_like (lit ''visits'')
   \<and> map fst (missing_handling notes_table) = map fst notes_table"
proof -
  have "missing_handling notes_table =
     [(lit ''notes'', Object [Some (lit ''ok''), Some (lit ''Unknown'')]),
      (lit ''ward_code'', Object [None, Some (lit ''W1'')]),
      (lit ''visits'', Numeric [None, Some (Fin 3)])]"
    by code_simp
  moreover have "\<not> id_like (lit ''notes'') \<and> id_like (lit ''ward_code'') \<and> \<not> id_like (lit ''visits'')"
    by code_simp
  ultimately show ?thesis
    using missing_handling_fills [of notes_table] by blast
qed

lemma missing_handling_no_missing:
  assumes "(c, col) \<in> set (missing_handling df)" "is_object col" "\<not> id_like c"
  shows "missing_count col = 0"
proof -
  from assms(1) obtain col0 where
    "col = (if is_object col0 \<and> \<not> id_like c then fillna_unknown col0 else col0)"
    by (auto simp: missing_handling_def any_in_id_words)
  with assms(2,3) have "col = fillna_unknown col0 \<and> is_object col0"
    by (auto split: if_splits)
  then show ?thesis by (simp add: missing_count_fillna_unknown)
qed

lemma list_all2_summary:
  "list_all2 P df (missing_summary df) \<longleftrightarrow>
   (\<forall>(c, col) \<in> set df. P (c, col) \<lparr> column_name = c, sr_missing_count = missing_count col,
        sr_missing_pct = missing_pct (missing_count col) (nrows df) \<rparr>)"
  by (auto simp: missing_summary_def list_all2_map2 list_all2_same)

lemma pipeline_Inr:
  "pipeline E df_raw = Inr (df, summary) \<longleftrightarrow> clean E df_raw = Inr df \<and> summary = missing_summary df"
  by (auto simp: pipeline_def split: sum.splits)

text \<open>
  Claim C10, as the script has it. In the missing-value summary of a run that completes,
  every column that has the object dtype when the finalizer runs and whose name
  contains none of id, guid and code has the missing count 0; its missing share is 0
  when the cleaned table has a row, and NaN when it has none. So a column that shows a
  missing count other than 0 has such a name or another dtype: numeric, datetime or
  categorical.
\<close>

theorem textual_columns_report_no_missing:
  assumes "pipeline E df_raw = Inr (df, summary)"
  shows "list_all2 (\<lambda>(c, col) row. column_name row = c \<and>
           (is_object col \<and> \<not> id_like c \<longrightarrow>
              sr_missing_count row = 0 \<and>
              sr_missing_pct row = (if nrows df = 0 then None else Some (Fin 0))) \<and>
           (sr_missing_count row \<noteq> 0 \<longrightarrow>
              id_like c \<or> (\<exists>xs. col = Numeric xs) \<or> (\<exists>xs. col = Datetime xs)
                \<or> (\<exists>xs. col = Category xs)))
         df summary"
proof -
  from assms have c: "clean E df_raw = Inr df" and s: "summary = missing_summary df"
    by (simp_all add: pipeline_Inr)
  from c obtain df' where d: "df = missing_handling df'"
    using clean_is_filled by blast
  have zero: "missing_count col = 0 \<and>
        missing_pct (missing_count col) (nrows df) = (if nrows df = 0 then None else Some (Fin 0))"
    if "(c, col) \<in> set df" "is_object col" "\<not> id_like c" for c col
  proof -
    from that have "missing_count col = 0"
      unfolding d by (rule missing_handling_no_missing)
    then show ?thesis by (simp add: missing_pct_def round4_zero)
  qed
  have other: "id_like c \<or> (\<exists>xs. col = Numeric xs) \<or> (\<exists>xs. col = Datetime xs)
                \<or> (\<exists>xs. col = Category xs)"
    if "(c, col) \<in> set df" "missing_count col \<noteq> 0" for c col
  proof (cases col)
    case (Object xs)
    then have "is_object col" by (simp add: is_object_def)
    with zero [OF that(1)] that(2) show ?thesis by blast
  qed simp_all
  have "(is_object col \<and> \<not> id_like c \<longrightarrow>
           missing_count col = 0 \<and>
           missing_pct (missing_count col) (nrows df) = (if nrows df = 0 then None else Some (Fin 0))) \<and>
        (missing_count col \<noteq> 0 \<longrightarrow>
           id_like c \<or> (\<exists>xs. col = Numeric xs) \<or> (\<exists>xs. col = Datetime xs)
             \<or> (\<exists>xs. col = Category xs))"
    if m: "(c, col) \<in> set df" for c col
    using zero [OF m] other [OF m] by blast
  note each = this
  show ?thesis
    unfolding s list_all2_summary
  proof (rule ballI)
    fix p
    assume m: "p \<in> set df"
    obtain c col where p: "p = (c, col)" by (cases p)
    from each [of c col] m p
    show "case p of (c, col) \<Rightarrow>
            (\<lambda>(c, col) row. column_name row = c \<and>
               (is_object col \<and> \<not> id_like c \<longrightarrow>
                  sr_missing_count row = 0 \<and>
                  sr_missing_pct row = (if nrows df = 0 then None else Some (Fin 0))) \<and>
               (sr_missing_count row \<noteq> 0 \<longrightarrow>
                  id_like c \<or> (\<exists>xs. col = Numeric xs) \<or> (\<exists>xs. col = Datetime xs)
                    \<or> (\<exists>xs. col = Category xs)))
             (c, col)
             \<lparr>column_name = c, sr_missing_count = missing_count col,
                sr_missing_pct = missing_pct (missing_count col) (nrows df)\<rparr>"
      by (auto simp: missing_pct_def round4_zero)
  qed
qed

theorem textual_columns_report_no_missing_witness:
  "pipeline py_env scenario = Inr (scenario_clean, scenario_summary) \<and>
   list_all2 (\<lambda>(c, col) row. column_name row = c \<and>
           (is_object col \<and> \<not> id_like c \<longrightarrow>
              sr_missing_count row = 0 \<and>
              sr_missing_pct row = (if nrows scenario_clean = 0 then None else Some (Fin 0))) \<and>
           (sr_missing_count row \<noteq> 0 \<longrightarrow>
              id_like c \<or> (\<exists>xs. col = Numeric xs) \<or> (\<exists>xs. col = Datetime xs)
                \<or> (\<exists>xs. col = Category xs)))
         scenario_clean scenario_summary \<and>
   is_object (Object [Some (lit ''M''), Some (lit ''O'')]) \<and> \<not> id_like (lit ''sex'')"
proof -
  have p: "pipeline py_env scenario = Inr (scenario_clean, scenario_summary)"
    by code_simp
  have "is_object (Object [Some (lit ''M''), Some (lit ''O'')]) \<and> \<not> id_like (lit ''sex'')"
    by code_simp
  with p textual_columns_report_no_missing [OF p] show ?thesis by blast
qed

text \<open>
  Claim C10 as stated is false, in three ways. On a sheet that has a header and no
  rows, the summary divides the count 0 by 0 rows, and the missing share of the text
  column is NaN, not 0. In the scenario of claim C1, the column age_band shows the
  missing count 2: its name contains none of id, guid and code, and it is categorical,
  neither numeric nor parsed as a date. And a text column in which every cell is blank
  leaves the light cleaning as a float64 column of NaN, which the finalizer does not
  fill: it shows the missing count 2.
\<close>

theorem textual_columns_with_missing:
  "pipeline py_env header_only =
     Inr ([(lit ''notes'', Object [])],
          [\<lparr>column_name = lit ''notes'', sr_missing_count = 0, sr_missing_pct = None\<rparr>])
   \<and> is_object (Object []) \<and> \<not> id_like (lit ''notes'')
   \<and> (None :: num option) \<noteq> Some (Fin 0)
   \<and> pipeline py_env scenario = Inr (scenario_clean, scenario_summary)
   \<and> scenario_clean ! 3 = (lit ''age_band'', Category [None, None])
   \<and> scenario_summary ! 3
       = \<lparr>column_name = lit ''age_band'', sr_missing_count = 2, sr_missing_pct = Some (Fin 1)\<rparr>
   \<and> \<not> id_like (lit ''age_band'')
   \<and> pipeline py_env blank_notes =
     Inr ([(lit ''notes'', Numeric [None, None]),
           (lit ''visit'', Numeric [Some (Fin 1), Some (Fin 2)])],
          [\<lparr>column_name = lit ''notes'', sr_missing_count = 2, sr_missing_pct = Some (Fin 1)\<rparr>,
           \<lparr>column_name = lit ''visit'', sr_missing_count = 0, sr_missing_pct = Some (Fin 0)\<rparr>])"
proof -
  have a: "pipeline py_env header_only =
     Inr ([(lit ''notes'', Object [])],
          [\<lparr>column_name = lit ''notes'', sr_missing_count = 0, sr_missing_pct = None\<rparr>])"
    by code_simp
  have b: "is_object (Object [])" by (simp add: is_object_def)
  have c: "\<not> id_like (lit ''notes'')" "\<not> id_like (lit ''age_band'')" by code_simp+
  have d: "pipeline py_env scenario = Inr (scenario_clean, scenario_summary)" by code_simp
  have e: "scenario_clean ! 3 = (lit ''age_band'', Category [None, None])"
    by (simp add: scenario_clean_def)
  have f: "scenario_summary ! 3
       = \<lparr>column_name = lit ''age_band'', sr_missing_count = 2, sr_missing_pct = Some (Fin 1)\<rparr>"
    by (simp add: scenario_summary_def)
  have g: "pipeline py_env blank_notes =
     Inr ([(lit ''notes'', Numeric [None, None]),
           (lit ''visit'', Numeric [Some (Fin 1), Some (Fin 2)])],
          [\<lparr>column_name = lit ''notes'', sr_missing_count = 2, sr_missing_pct = Some (Fin 1)\<rparr>,
           \<lparr>column_name = lit ''visit'', sr_missing_count = 0, sr_missing_pct = Some (Fin 0)\<rparr>])"
    by code_simp
  from a b c d e f g show ?thesis by simp
qed

text \<open>
  Claim C8. In a run that completes on a rectangular table, the summary has one row
  per column of the cleaned table, in order. Its missing count and the number of
  non-missing cells of the column add up to the number of rows, and its missing share
  is the count divided by the number of rows, rounded to four decimal places. With no
  rows the division is 0/0 and the share is NaN.
\<close>

theorem missing_summary_counts:
  assumes "rectangular df_raw" and "pipeline E df_raw = Inr (df, summary)"
  shows "list_all2 (\<lambda>(c, col) row. column_name row = c \<and>
           sr_missing_count row + nonnull_count col = nrows df \<and>
           (if nrows df = 0 then sr_missing_pct row = None
            else \<exists>r. sr_missing_pct row = Some (Fin r) \<and>
                   rounded_to_4_places (of_nat (sr_missing_count row) / of_nat (nrows df)) r))
         df summary"
proof -
  from assms have c: "clean E df_raw = Inr df" and s: "summary = missing_summary df"
    by (simp_all add: pipeline_Inr)
  from c assms(1) have "rectangular df" by (rule rectangular_clean)
  then have len: "col_len col = nrows df" if "(c, col) \<in> set df" for c col
    using that by (auto simp: rectangular_def)
  have zero: "missing_count col = 0" if "(c, col) \<in> set df" "nrows df = 0" for c col
    using len [OF that(1)] count_split [of col] that(2) by simp
  have "missing_count col + nonnull_count col = nrows df \<and>
        (if nrows df = 0 then missing_pct (missing_count col) (nrows df) = None
         else \<exists>r. missing_pct (missing_count col) (nrows df) = Some (Fin r) \<and>
                rounded_to_4_places (of_nat (missing_count col) / of_nat (nrows df)) r)"
    if m: "(c, col) \<in> set df" for c col
  proof (cases "nrows df = 0")
    case True
    with zero [OF m] len [OF m] count_split [of col] show ?thesis
      by (simp add: missing_pct_def)
  next
    case False
    with len [OF m] count_split [of col] round4_rounded show ?thesis
      by (simp add: missing_pct_def)
  qed
  then show ?thesis
    unfolding s list_all2_summary by fastforce
qed

theorem missing_summary_counts_witness:
  "rectangular scenario \<and> pipeline py_env scenario = Inr (scenario_clean, scenario_summary) \<and>
   list_all2 (\<lambda>(c, col) row. column_name row = c \<and>
           sr_missing_count row + nonnull_count col = nrows scenario_clean \<and>
           (if nrows scenario_clean = 0 then sr_missing_pct row = None
            else \<exists>r. sr_missing_pct row = Some (Fin r) \<and>
                   rounded_to_4_places (of_nat (sr_missing_count row) / of_nat (nrows scenario_clean)) r))
         scenario_clean scenario_summary \<and> nrows scenario_clean = 2"
proof -
  have r: "rectangular scenario" by code_simp
  have p: "pipeline py_env scenario = Inr (scenario_clean, scenario_summary)" by code_simp
  have n: "nrows scenario_clean = 2" by code_simp
  from r p n missing_summary_counts [OF r p] show ?thesis by blast
qed

section \<open>Deduplication\<close>

lemma duplicated_nth:
  "duplicated seen ks = map (\<lambda>i. ks ! i \<in> set seen \<union> set (take i ks)) [0..<length ks]"
proof (induction ks arbitrary: seen)
  case Nil
  then show ?case by simp
next
  case (Cons k ks)
  have "map (\<lambda>i. (k # ks) ! i \<in> set seen \<union> set (take i (k # ks))) [0..<length (k # ks)]
        = (k \<in> set seen) # map (\<lambda>i. ks ! i \<in> set (k # seen) \<union> set (take i ks)) [0..<length ks]"
    by (auto simp: upt_conv_Cons map_Suc_upt [symmetric] simp del: upt_Suc)
  with Cons show ?case by simp
qed

lemma keep_rows_nth:
  assumes "length xs = length dup"
  shows "keep_rows dup xs = map (\<lambda>i. xs ! i) (filter (\<lambda>i. \<not> dup ! i) [0..<length dup])"
proof -
  let ?is = "[0..<length dup]"
  have "zip dup xs = map (\<lambda>i. (dup ! i, xs ! i)) ?is"
    using assms by (intro nth_equalityI) simp_all
  then show ?thesis
    by (simp add: keep_rows_def filter_map comp_def)
qed

lemma keep_rows_first_occurrences:
  assumes "length xs = length ks"
  shows "keep_rows (duplicated [] ks) xs = map (\<lambda>i. xs ! i) (first_occurrences ks)"
proof -
  have "filter (\<lambda>i. \<not> duplicated [] ks ! i) [0..<length ks]
        = filter (\<lambda>i. ks ! i \<notin> set (take i ks)) [0..<length ks]"
    by (rule filter_cong) (simp_all add: duplicated_nth)
  with assms show ?thesis
    by (simp add: keep_rows_nth first_occurrences_def)
qed

lemma drop_rows_first_occurrences:
  "col_len col = length ks \<Longrightarrow> drop_rows (duplicated [] ks) col = rows_at (first_occurrences ks) col"
  by (cases col) (simp_all add: drop_rows_def rows_at_def keep_rows_first_occurrences)

lemma drop_duplicates_first_occurrences:
  assumes "rectangular df"
  shows "drop_duplicates names df = take_rows (first_occurrences (row_keys df names)) df"
  using assms
  by (auto simp: drop_duplicates_def take_rows_def rectangular_def
      intro!: drop_rows_first_occurrences)

text \<open>
  Claim C4, as the script has it. When at least one of the columns patientid,
  patient_id, guid, patientguid exists, the key of a row is the list of its values in
  all of these columns that exist, in that order, and deduplication keeps exactly the
  rows whose key occurs in no earlier row, in their original order. With one such
  column this is the first row of each of its values.
\<close>

theorem deduplication_by_all_identifiers:
  assumes "rectangular df" and "filter (has df) key_names \<noteq> []"
  shows "deduplication df =
         take_rows (first_occurrences (row_keys df (filter (has df) key_names))) df"
  using assms by (simp add: deduplication_def drop_duplicates_first_occurrences)

theorem deduplication_by_all_identifiers_witness:
  "rectangular two_ids \<and> filter (has two_ids) key_names = [lit ''patientid'', lit ''guid''] \<and>
   row_keys two_ids [lit ''patientid'', lit ''guid''] =
     [[Some (Number (Fin 1)), Some (Text (lit ''a''))], [Some (Number (Fin 1)), Some (Text (lit ''b''))]] \<and>
   deduplication two_ids = take_rows [0, 1] two_ids"
proof -
  have r: "rectangular two_ids" by code_simp
  have k: "filter (has two_ids) key_names = [lit ''patientid'', lit ''guid'']" by code_simp
  then have n: "filter (has two_ids) key_names \<noteq> []" by simp
  have "row_keys two_ids [lit ''patientid'', lit ''guid''] =
     [[Some (Number (Fin 1)), Some (Text (lit ''a''))], [Some (Number (Fin 1)), Some (Text (lit ''b''))]]"
    by code_simp
  moreover have "first_occurrences
     [[Some (Number (Fin 1)), Some (Text (lit ''a''))], [Some (Number (Fin 1)), Some (Text (lit ''b''))]] = [0, 1]"
    by code_simp
  ultimately show ?thesis
    using r k deduplication_by_all_identifiers [OF r n] by simp
qed

text \<open>
  Claim C4 as stated is false. Two rows with the same patientid and different guid are
  both kept, by the deduplication and so by the whole script, though the first
  identifier column alone would keep only the first.
\<close>

theorem same_patientid_both_kept:
  "deduplication two_ids = two_ids \<and> clean py_env two_ids = Inr two_ids \<and>
   take_rows (first_occurrences (row_keys two_ids [lit ''patientid''])) two_ids =
     [(lit ''patientid'', Numeric [Some (Fin 1)]), (lit ''guid'', Object [Some (lit ''a'')])] \<and>
   deduplication two_ids \<noteq> take_rows (first_occurrences (row_keys two_ids [lit ''patientid''])) two_ids"
  by code_simp

section \<open>Membership flags\<close>

lemma trunc_zero_0 [simp]: "trunc_zero 0 = 0"
  by (simp add: trunc_zero_def)



lemma membership_loop_two:
  assumes "membership_loop E [a, d] df = Inr df'" and "a \<noteq> d"
  shows "(case map_of df a of None \<Rightarrow> map_of df' a = None
          | Some col \<Rightarrow> \<exists>col'. membership_flag E col = Inr col' \<and> map_of df' a = Some col') \<and>
         (case map_of df d of None \<Rightarrow> map_of df' d = None
          | Some col \<Rightarrow> \<exists>col'. membership_flag E col = Inr col' \<and> map_of df' d = Some col') \<and>
         (\<forall>k. k \<noteq> a \<and> k \<noteq> d \<longrightarrow> map_of df' k = map_of df k)"
  using assms
  by (auto simp: map_of_setcol split: option.splits sum.splits)



lemma membership_names:
  "lit ''ismembershipactive'' \<noteq> lit ''ismembershiptakendirectly''"
  "lit ''membership_status'' \<noteq> lit ''ismembershipactive''"
  "lit ''membership_status'' \<noteq> lit ''ismembershiptakendirectly''"
  by (simp_all add: lit_def)

lemma membership_flags_Inr:
  assumes "membership_flags E df = Inr df'"
  obtains df1 where
    "membership_loop E [lit ''ismembershipactive'', lit ''ismembershiptakendirectly''] df = Inr df1"
    "df' = (case map_of df1 (lit ''ismembershipactive'') of None \<Rightarrow> df1
            | Some col \<Rightarrow> setcol df1 (lit ''membership_status'') (membership_status col))"
  using assms by (auto simp: membership_flags_def split: sum.splits option.splits)




section \<open>Columns through the later stages\<close>

lemma map_of_age_cleanup:
  "k \<noteq> lit ''age'' \<Longrightarrow> k \<noteq> lit ''age_band'' \<Longrightarrow> map_of (age_cleanup E df) k = map_of df k"
  by (simp add: age_cleanup_def Let_def map_of_setcol split: option.splits)

lemma map_of_full_name:
  "full_name_fallback E df = Inr df' \<Longrightarrow> k \<noteq> lit ''fullname'' \<Longrightarrow> map_of df' k = map_of df k"
  by (auto simp: full_name_fallback_def Let_def map_of_setcol map_of_modify
      split: if_splits option.splits sum.splits)

lemma map_of_membership_flags:
  assumes "membership_flags E df = Inr df'"
    and "k \<noteq> lit ''ismembershipactive''" "k \<noteq> lit ''ismembershiptakendirectly''"
    and "k \<noteq> lit ''membership_status''"
  shows "map_of df' k = map_of df k"
proof -
  from assms(1) obtain df1 where
    l: "membership_loop E [lit ''ismembershipactive'', lit ''ismembershiptakendirectly''] df = Inr df1"
    and d: "df' = (case map_of df1 (lit ''ismembershipactive'') of None \<Rightarrow> df1
                   | Some col \<Rightarrow> setcol df1 (lit ''membership_status'') (membership_status col))"
    by (rule membership_flags_Inr)
  from membership_loop_two [OF l membership_names(1)] assms(2,3)
  have "map_of df1 k = map_of df k" by simp
  with assms(4) show ?thesis by (simp add: d map_of_setcol split: option.splits)
qed

lemma map_of_drop_duplicates:
  "map_of (drop_duplicates names df) k =
   map_option (drop_rows (duplicated [] (row_keys df names))) (map_of df k)"
  by (simp add: drop_duplicates_def Let_def map_of_map_cols)

lemma map_of_deduplication:
  "\<exists>dup. \<forall>k. map_of (deduplication df) k = map_option (drop_rows dup) (map_of df k)"
  unfolding deduplication_def Let_def
  by (auto simp: map_of_drop_duplicates)

lemma map_of_missing_handling:
  "map_of (missing_handling df) k = map_option (finalize k) (map_of df k)"
  unfolding missing_handling_def any_in_id_words finalize_def
  using map_of_map_cols [of "\<lambda>c col. if is_object col \<and> \<not> id_like c then fillna_unknown col else col"]
  by simp

text \<open>
  From the table after the age stage to the cleaned table, a column that none of the
  later derivers writes only loses the duplicate rows and has its missing text filled.
\<close>

lemma untouched_column:
  assumes f: "full_name_fallback E df = Inr df2" and m: "membership_flags E df2 = Inr df3"
  shows "\<exists>dup. \<forall>k. k \<notin> {lit ''fullname'', lit ''ismembershipactive'',
                  lit ''ismembershiptakendirectly'', lit ''membership_status''} \<longrightarrow>
            map_of (missing_handling (deduplication df3)) k
            = map_option (\<lambda>col. finalize k (drop_rows dup col)) (map_of df k)"
proof -
  obtain dup where d: "\<And>k. map_of (deduplication df3) k = map_option (drop_rows dup) (map_of df3 k)"
    using map_of_deduplication by blast
  have "map_of (missing_handling (deduplication df3)) k
        = map_option (\<lambda>col. finalize k (drop_rows dup col)) (map_of df k)"
    if "k \<notin> {lit ''fullname'', lit ''ismembershipactive'',
                  lit ''ismembershiptakendirectly'', lit ''membership_status''}" for k
  proof -
    from that have "map_of df3 k = map_of df k"
      using map_of_membership_flags [OF m, of k] map_of_full_name [OF f, of k] by simp
    then show ?thesis
      by (simp add: map_of_missing_handling d option.map_comp comp_def)
  qed
  then show ?thesis by blast
qed

lemma clean_Inr:
  assumes "clean E df_raw = Inr df"
  obtains df1 df2 df3 where
    "light_cleaning E (load E df_raw) = Inr df1"
    "full_name_fallback E
       (age_cleanup E (gender_normalization E (parse_dates E (coerce_numerics E df1)))) = Inr df2"
    "membership_flags E df2 = Inr df3"
    "df = missing_handling (deduplication df3)"
  using assms by (auto simp: clean_def split: sum.splits)

section \<open>Gender\<close>

lemma gender_col_map_of:
  "gender_col df =
     (if map_of df (lit ''sex'') \<noteq> None then Some (lit ''sex'')
      else if map_of df (lit ''gender'') \<noteq> None then Some (lit ''gender'') else None)"
  by (simp add: gender_col_def has_map_of)

lemma gender_col_names: "gender_col df = Some g \<Longrightarrow> g = lit ''sex'' \<or> g = lit ''gender''"
  by (auto simp: gender_col_map_of split: if_splits)

lemma gender_col_cong:
  assumes "(map_of df' (lit ''sex'') = None) = (map_of df (lit ''sex'') = None)"
    and "(map_of df' (lit ''gender'') = None) = (map_of df (lit ''gender'') = None)"
  shows "gender_col df' = gender_col df"
  using assms by (simp add: gender_col_map_of)

lemma gender_value_code: "Some (gender_value E s) \<in> gender_codes"
  by (simp add: gender_value_def gender_codes_def Let_def)

lemma gender_normalization_column:
  assumes "gender_col df = Some g" and "map_of df g = Some col"
  shows "map_of (gender_normalization E df) g
         = Some (Object (map (\<lambda>s. Some (gender_value E s)) (astype_str E col)))"
  using assms by (simp add: gender_normalization_def map_of_modify)

lemma gender_normalization_names:
  "(map_of (gender_normalization E df) k = None) = (map_of df k = None)"
  by (auto simp: gender_normalization_def map_of_modify split: option.splits)

lemma gender_col_present: "gender_col df = Some g \<Longrightarrow> map_of df g \<noteq> None"
  by (auto simp: gender_col_map_of split: if_splits)

lemma set_keep_rows: "set (keep_rows dup xs) \<subseteq> set xs"
  by (auto simp: keep_rows_def dest: set_zip_rightD)

lemma finalize_gender:
  assumes "set xs \<subseteq> gender_codes"
  shows "\<exists>ys. finalize k (drop_rows dup (Object xs)) = Object ys \<and> set ys \<subseteq> gender_codes"
proof -
  have a: "set (keep_rows dup xs) \<subseteq> gender_codes"
    using assms set_keep_rows by fastforce
  then have "(case x of None \<Rightarrow> Some (lit ''Unknown'') | Some s \<Rightarrow> Some s) \<in> gender_codes"
    if "x \<in> set (keep_rows dup xs)" for x
    using that by (cases x) (auto simp: gender_codes_def)
  with a show ?thesis
    by (auto simp: finalize_def drop_rows_def fillna_unknown_def)
qed

lemma gender_names:
  "lit ''sex'' \<notin> {lit ''age'', lit ''age_band'', lit ''fullname'', lit ''ismembershipactive'',
       lit ''ismembershiptakendirectly'', lit ''membership_status''}"
  "lit ''gender'' \<notin> {lit ''age'', lit ''age_band'', lit ''fullname'', lit ''ismembershipactive'',
       lit ''ismembershiptakendirectly'', lit ''membership_status''}"
  by (simp_all add: lit_def)

text \<open>The gender column of the cleaned table holds the four codes only.\<close>

lemma gender_after_clean:
  assumes c: "clean E df_raw = Inr df" and g: "gender_col df = Some g"
  shows "\<exists>xs. map_of df g = Some (Object xs) \<and> set xs \<subseteq> gender_codes"
proof -
  from c obtain df1 df2 df3 where
    f: "full_name_fallback E
       (age_cleanup E (gender_normalization E (parse_dates E (coerce_numerics E df1)))) = Inr df2"
    and m: "membership_flags E df2 = Inr df3"
    and d: "df = missing_handling (deduplication df3)"
    by (rule clean_Inr)
  let ?df3 = "parse_dates E (coerce_numerics E df1)"
  let ?df4 = "gender_normalization E ?df3"
  let ?df5 = "age_cleanup E ?df4"
  let ?N = "{lit ''fullname'', lit ''ismembershipactive'', lit ''ismembershiptakendirectly'',
             lit ''membership_status''}"
  obtain dup where u: "\<And>k. k \<notin> ?N \<Longrightarrow>
      map_of df k = map_option (\<lambda>col. finalize k (drop_rows dup col)) (map_of ?df5 k)"
    using untouched_column [OF f m] unfolding d by blast
  have later: "map_of df k = map_option (\<lambda>col. finalize k (drop_rows dup col)) (map_of ?df4 k)"
    if "k = lit ''sex'' \<or> k = lit ''gender''" for k
  proof -
    from that gender_names have "k \<notin> ?N" "k \<noteq> lit ''age''" "k \<noteq> lit ''age_band''" by auto
    then show ?thesis by (simp add: u map_of_age_cleanup)
  qed
  have "gender_col df = gender_col ?df3"
    by (rule gender_col_cong) (simp_all add: later gender_normalization_names)
  with g have g3: "gender_col ?df3 = Some g" by simp
  then obtain col where col: "map_of ?df3 g = Some col"
    using gender_col_present by blast
  let ?xs = "map (\<lambda>s. Some (gender_value E s)) (astype_str E col)"
  have "map_of ?df4 g = Some (Object ?xs)"
    using g3 col by (rule gender_normalization_column)
  moreover have "g = lit ''sex'' \<or> g = lit ''gender''"
    using g by (rule gender_col_names)
  ultimately have "map_of df g = Some (finalize g (drop_rows dup (Object ?xs)))"
    by (simp add: later)
  moreover have "set ?xs \<subseteq> gender_codes"
    using gender_value_code by auto
  ultimately show ?thesis
    using finalize_gender [of ?xs g dup] by auto
qed

lemma lower_from_no_capitals:
  "lower_no_capitals E \<Longrightarrow> \<forall>d \<in> set (lower_from E pre s). \<not> (65 \<le> d \<and> d \<le> 90)"
proof (induction s arbitrary: pre)
  case Nil
  then show ?case by simp
next
  case (Cons c s)
  have "\<forall>d \<in> set (if c < 128 then [ascii_lower c] else ucd_lower E pre c s). \<not> (65 \<le> d \<and> d \<le> 90)"
  proof (cases "c < 128")
    case True
    then show ?thesis by (simp add: ascii_lower_def)
  next
    case False
    then have "128 \<le> c" by simp
    with Cons.prems have "\<forall>d \<in> set (ucd_lower E pre c s). \<not> (65 \<le> d \<and> d \<le> 90)"
      unfolding lower_no_capitals_def by blast
    with False show ?thesis by simp
  qed
  with Cons.IH [OF Cons.prems] show ?case by auto
qed

lemma lower_not_code:
  assumes "lower_no_capitals E"
  shows "lower E s \<noteq> lit ''M''" "lower E s \<noteq> lit ''F''" "lower E s \<noteq> lit ''O''"
proof -
  have "\<forall>d \<in> set (lower E s). \<not> (65 \<le> d \<and> d \<le> 90)"
    unfolding lower_def using assms by (rule lower_from_no_capitals)
  then show "lower E s \<noteq> lit ''M''" "lower E s \<noteq> lit ''F''" "lower E s \<noteq> lit ''O''"
    by (auto simp: lit_def)
qed

lemma gender_value_table:
  assumes "lower_no_capitals E"
  shows "gender_value E s =
     (let v = lower E (strip E s)
      in if v = lit ''m'' \<or> v = lit ''male'' then lit ''M''
         else if v = lit ''f'' \<or> v = lit ''female'' then lit ''F''
         else if v = lit ''o'' \<or> v = lit ''other'' \<or> v = lit ''others'' then lit ''O''
         else lit ''Unknown'')"
proof -
  have codes: "lit ''M'' \<noteq> lit ''F''" "lit ''M'' \<noteq> lit ''O''" "lit ''F'' \<noteq> lit ''O''"
    by (simp_all add: lit_def)
  show ?thesis
    using lower_not_code [OF assms, of "strip E s"] codes
    by (auto simp: gender_value_def gmap_def Let_def)
qed

text \<open>
  Claim C6. In the cleaned table of a run that completes, the gender column (sex when
  there is such a column, else gender) is a column of text whose every cell is one of
  M, F, O, Unknown. The gender normalizer replaces each cell by the code of its string
  form, and the code of a string is read off its stripped, lower-cased form: m and male
  give M, f and female give F, o, other and others give O, everything else gives
  Unknown. A missing cell has the string form nan and becomes Unknown.
\<close>

theorem gender_normalized:
  "(\<forall>df summary g. pipeline E df_raw = Inr (df, summary) \<and> gender_col df = Some g \<longrightarrow>
      (\<exists>xs. map_of df g = Some (Object xs) \<and>
            set xs \<subseteq> {Some (lit ''M''), Some (lit ''F''), Some (lit ''O''), Some (lit ''Unknown'')})) \<and>
   (\<forall>df g col. gender_col df = Some g \<and> map_of df g = Some col \<longrightarrow>
      map_of (gender_normalization E df) g
      = Some (Object (map (\<lambda>s. Some (gender_value E s)) (astype_str E col)))) \<and>
   (lower_no_capitals E \<longrightarrow>
      (\<forall>s. gender_value E s =
        (let v = lower E (strip E s)
         in if v = lit ''m'' \<or> v = lit ''male'' then lit ''M''
            else if v = lit ''f'' \<or> v = lit ''female'' then lit ''F''
            else if v = lit ''o'' \<or> v = lit ''other'' \<or> v = lit ''others'' then lit ''O''
            else lit ''Unknown''))) \<and>
   astype_str E (Object [None]) = [lit ''nan''] \<and> gender_value E (lit ''nan'') = lit ''Unknown''"
proof -
  have nan: "astype_str E (Object [None]) = [lit ''nan''] \<and> gender_value E (lit ''nan'') = lit ''Unknown''"
    by (simp add: astype_str_def gender_value_def gmap_def lit_def strip_def lower_def
        isspace_def ascii_space_def ascii_lower_def)
  show ?thesis
    using gender_after_clean [of E df_raw] gender_normalization_column [of _ _ _ E]
      gender_value_table [of E] nan
    unfolding gender_codes_def pipeline_Inr
    by blast
qed

theorem gender_normalized_witness:
  "pipeline py_env scenario = Inr (scenario_clean, scenario_summary) \<and>
   gender_col scenario_clean = Some (lit ''sex'') \<and>
   map_of scenario_clean (lit ''sex'') = Some (Object [Some (lit ''M''), Some (lit ''O'')]) \<and>
   lower_no_capitals py_env \<and>
   gender_value py_env (lit '' Male '') = lit ''M'' \<and>
   gender_value py_env (lit ''OTHERS'') = lit ''O'' \<and>
   gender_value py_env (lit ''n/a'') = lit ''Unknown''"
proof -
  have p: "pipeline py_env scenario = Inr (scenario_clean, scenario_summary)" by code_simp
  have g: "gender_col scenario_clean = Some (lit ''sex'')" by code_simp
  have l: "lower_no_capitals py_env"
    by (auto simp: lower_no_capitals_def py_env_def)
  have v: "gender_value py_env (lit '' Male '') = lit ''M'' \<and>
           gender_value py_env (lit ''OTHERS'') = lit ''O'' \<and>
           gender_value py_env (lit ''n/a'') = lit ''Unknown''"
    by code_simp
  have m: "map_of scenario_clean (lit ''sex'') = Some (Object [Some (lit ''M''), Some (lit ''O'')])"
    by code_simp
  from gender_normalized [of py_env scenario] p g l v m show ?thesis by blast
qed

section \<open>Age\<close>

lemma age_cleanup_columns:
  assumes "map_of df (lit ''age'') = Some col"
  shows "map_of (age_cleanup E df) (lit ''age'') = Some (Numeric (map out_of_range (to_numeric E col)))"
    and "map_of (age_cleanup E df) (lit ''age_band'')
         = Some (Category (map age_band (map out_of_range (to_numeric E col))))"
  using assms by (simp_all add: age_cleanup_def Let_def map_of_setcol lit_def)

lemma age_cleanup_absent: "map_of df (lit ''age'') = None \<Longrightarrow> age_cleanup E df = df"
  by (simp add: age_cleanup_def)

lemma out_of_range_range:
  "out_of_range a = None \<or> (\<exists>r. out_of_range a = Some (Fin r) \<and> 0 \<le> r \<and> r \<le> 120)"
proof (cases a)
  case None
  then show ?thesis by (simp add: out_of_range_def)
next
  case (Some x)
  then show ?thesis by (cases x) (auto simp: out_of_range_def)
qed

lemma age_band_None_iff:
  "0 \<le> r \<Longrightarrow> r \<le> 120 \<Longrightarrow> age_band (Some (Fin r)) = None \<longleftrightarrow> r = 0"
  by (auto simp: age_band_def age_bins_def age_labels_def)

lemma keep_rows_map: "keep_rows dup (map f xs) = map f (keep_rows dup xs)"
  by (simp add: keep_rows_def zip_map2 filter_map comp_def case_prod_unfold)

lemma age_names:
  "lit ''age'' \<notin> {lit ''fullname'', lit ''ismembershipactive'',
       lit ''ismembershiptakendirectly'', lit ''membership_status''}"
  "lit ''age_band'' \<notin> {lit ''fullname'', lit ''ismembershipactive'',
       lit ''ismembershiptakendirectly'', lit ''membership_status''}"
  by (simp_all add: lit_def)

text \<open>
  What the script does make of the ages, in every run that completes: the age column of
  the cleaned table is numeric, each age is missing or a number from 0 to 120, and the
  age band column holds the band of the age of the same row. An age in range has no
  band exactly when it is 0.
\<close>

lemma age_after_clean:
  assumes c: "clean E df_raw = Inr df" and a: "map_of df (lit ''age'') = Some col"
  shows "\<exists>ages. col = Numeric ages \<and>
           map_of df (lit ''age_band'') = Some (Category (map age_band ages)) \<and>
           (\<forall>a \<in> set ages. a = None \<or> (\<exists>r. a = Some (Fin r) \<and> 0 \<le> r \<and> r \<le> 120 \<and>
               (age_band a = None \<longleftrightarrow> r = 0)))"
proof -
  from c obtain df1 df2 df3 where
    f: "full_name_fallback E
       (age_cleanup E (gender_normalization E (parse_dates E (coerce_numerics E df1)))) = Inr df2"
    and m: "membership_flags E df2 = Inr df3"
    and d: "df = missing_handling (deduplication df3)"
    by (rule clean_Inr)
  let ?df4 = "gender_normalization E (parse_dates E (coerce_numerics E df1))"
  let ?df5 = "age_cleanup E ?df4"
  obtain dup where u: "\<And>k. k \<notin> {lit ''fullname'', lit ''ismembershipactive'',
       lit ''ismembershiptakendirectly'', lit ''membership_status''} \<Longrightarrow>
      map_of df k = map_option (\<lambda>col. finalize k (drop_rows dup col)) (map_of ?df5 k)"
    using untouched_column [OF f m] unfolding d by blast
  from a u [OF age_names(1)] have "map_of ?df5 (lit ''age'') \<noteq> None" by auto
  then obtain col4 where c4: "map_of ?df4 (lit ''age'') = Some col4"
    using age_cleanup_absent [of ?df4 E] by fastforce
  let ?ages = "map out_of_range (to_numeric E col4)"
  have "col = finalize (lit ''age'') (drop_rows dup (Numeric ?ages))"
    using a u [OF age_names(1)] age_cleanup_columns(1) [OF c4, of E] by simp
  then have col: "col = Numeric (keep_rows dup ?ages)"
    by (simp add: finalize_def drop_rows_def is_object_def)
  have "map_of df (lit ''age_band'')
        = Some (finalize (lit ''age_band'') (drop_rows dup (Category (map age_band ?ages))))"
    using u [OF age_names(2)] age_cleanup_columns(2) [OF c4, of E] by simp
  then have band: "map_of df (lit ''age_band'') = Some (Category (map age_band (keep_rows dup ?ages)))"
    by (simp add: finalize_def drop_rows_def is_object_def keep_rows_map)
  have "a = None \<or> (\<exists>r. a = Some (Fin r) \<and> 0 \<le> r \<and> r \<le> 120 \<and> (age_band a = None \<longleftrightarrow> r = 0))"
    if "a \<in> set (keep_rows dup ?ages)" for a
  proof -
    from that set_keep_rows [of dup ?ages] obtain b where "a = out_of_range b" by auto
    with out_of_range_range [of b] show ?thesis
      by (auto simp: age_band_None_iff)
  qed
  with col band show ?thesis by blast
qed

section \<open>Worked runs of the script\<close>

lemmas script_defs =
  clean_def load_def to_snake_def strip_def re_sub_nonword_def lower_def isspace_def isword_def
  ascii_space_def ascii_alnum_def ascii_lower_def lit_def light_cleaning_def strip_strings_def infer_objects_def
  is_object_def astype_str_def replace_nan_def coerce_numerics_def numeric_names_def modify_def
  setcol_def to_numeric_def parse_dates_def date_words_def any_in_def to_datetime_def
  gender_normalization_def gender_col_def has_def gmap_def gender_value_def
  age_cleanup_def out_of_range_def age_band_def age_bins_def age_labels_def
  full_name_fallback_def membership_flags_def deduplication_def key_names_def
  fallback_names_def drop_duplicates_def row_keys_def nrows_def col_len_def col_cells_def
  keep_rows_def drop_rows_def missing_handling_def id_words_def fillna_unknown_def
  List.map_filter_def Let_def sublist_code

lemma clean_scenario: "clean E scenario = Inr scenario_clean"
  unfolding scenario_def scenario_clean_def by (simp add: script_defs)

text \<open>
  Claim C1, as the script has it. On the table with the columns Patient ID, Age, Sex
  and the rows (1, 200, Male), (1, 30, m), (2, -5, other), the cleaned table has one row
  with id 1 and one with id 2. The row with id 1 is the first input row: its age 200 is
  out of range, so age and age band are missing, and its gender is M. The row with id 2
  has age and age band missing and gender O.
\<close>

theorem scenario_keeps_first_row:
  "clean E scenario = Inr scenario_clean \<and>
   cleaned_rows_with E scenario (lit ''patient_id'') (Number (Fin 1)) =
     [[(lit ''patient_id'', Some (Number (Fin 1))), (lit ''age'', None),
       (lit ''sex'', Some (Text (lit ''M''))), (lit ''age_band'', None)]] \<and>
   cleaned_rows_with E scenario (lit ''patient_id'') (Number (Fin 2)) =
     [[(lit ''patient_id'', Some (Number (Fin 2))), (lit ''age'', None),
       (lit ''sex'', Some (Text (lit ''O''))), (lit ''age_band'', None)]]"
  unfolding cleaned_rows_with_def clean_scenario
  by (simp add: scenario_clean_def frame_rows_def nrows_def col_len_def col_cells_def lit_def)

text \<open>
  Claim C1 as stated is false: the surviving row with id 1 is not the one with age 30
  and age band 19-30. Deduplication keeps the first row of each id, and the row with
  age 30 is the second.
\<close>

theorem scenario_row_30_dropped:
  "cleaned_rows_with py_env scenario (lit ''patient_id'') (Number (Fin 1)) \<noteq>
     [[(lit ''patient_id'', Some (Number (Fin 1))), (lit ''age'', Some (Number (Fin 30))),
       (lit ''sex'', Some (Text (lit ''M''))), (lit ''age_band'', Some (Label (lit ''19-30'')))]]"
  unfolding cleaned_rows_with_def clean_scenario
  by (simp add: scenario_clean_def frame_rows_def nrows_def col_len_def col_cells_def lit_def)

lemma full_name_without_last_name:
  assumes "\<not> has df (lit ''fullname'')"
    and "has df (lit ''firstname'') \<or> has df (lit ''first_name'')"
    and "\<not> has df (lit ''lastname'')" and "\<not> has df (lit ''last_name'')"
  shows "\<exists>e. full_name_fallback E df = Inl e"
  using assms
  by (auto simp: full_name_fallback_def has_map_of split: option.splits sum.splits)

text \<open>
  Claim C2 fails on a table that has a first name and no last name column: the lookup
  of the last name gives None, and the call of \<^verbatim>\<open>fillna\<close> on it stops the script with
  an AttributeError. No \<^verbatim>\<open>fullname\<close> is produced.
\<close>

theorem first_name_only_fails:
  "clean E only_first_name = Inl AttributeError \<and>
   full_name_fallback E [(lit ''firstname'', Object [Some (lit ''Ann'')])] = Inl AttributeError"
  unfolding only_first_name_def by (simp add: script_defs fillna_empty_def)

text \<open>
  Claim C3 fails at the age 0: it is in range and stays, and it gets no band, because the
  first interval of \<^verbatim>\<open>pd.cut\<close> is open at 0.
\<close>

theorem age_zero_has_no_band:
  "clean E newborn =
     Inr [(lit ''age'', Numeric [Some (Fin 0)]), (lit ''age_band'', Category [None])] \<and>
   age_band (Some (Fin 0)) = None \<and>
   age_band (Some (Fin (1 / 2))) = Some (lit ''0-12'') \<and>
   age_band (Some (Fin 12)) = Some (lit ''0-12'')"
  unfolding newborn_def by (simp add: script_defs)

end
